theory Spec2Isabelle
  imports Complex_Main "HOL-Library.Word"
begin

unbundle bit_operations_syntax

section \<open>Conventions of the embedding\<close>

text \<open>
  The program is src/lib/clientTts.ts. Its values are modelled as follows.

  \<^item> A JavaScript \<open>number\<close> that holds a length, an index, a step count or a configuration
    value is an \<open>int\<close> (or a \<open>nat\<close> where the source can only produce a length).
    A \<open>number\<close> that holds seconds, a sample or tensor data is a \<open>real\<close>: the embedding
    covers finite numbers and computes exactly, so rounding of IEEE doubles and the
    narrowing to \<open>Float32Array\<close> are not represented. Where a division by zero would
    produce an infinity or a NaN in the source, the model takes the branch that the
    source reaches with that value (always an exception, see below).
  \<^item> A string is the list of its UTF-16 code units, which is what \<open>length\<close>,
    \<open>codePointAt\<close>, \<open>trim\<close> and \<open>split\<close> of the source work on.
  \<^item> An exception is a value of \<open>js_error\<close>; a function that can throw returns
    \<open>js_error + 'a\<close>.
  \<^item> \<open>Math.random()\<close> is an explicit stream \<open>rand\<close> of numbers together with the
    position of the next unread element.
  \<^item> The four ONNX sessions are opaque functions from input tensors to output data.
    Every call of a session is appended to a trace, so that the order and the
    arguments of the calls can be stated.
\<close>

datatype js_error =
    SingleStyleError   \<comment> \<open>"Single speaker text to speech only supports single style"\<close>
  | RangeError         \<comment> \<open>"Invalid array length", "offset is out of bounds"\<close>

section \<open>Mask builder and latent sampler\<close>

text \<open>
  \<open>TextToSpeech.lengthToMask\<close> (lines 262-272). \<open>new Array(n)\<close> throws a RangeError
  when \<open>n\<close> is negative; the callback of \<open>map\<close> is not run for an empty \<open>lengths\<close>.
  The row is allocated with zeros and then overwritten index by index.
\<close>

definition mask_row :: "int \<Rightarrow> int \<Rightarrow> real list" where
  "mask_row len actualMaxLen =
     (let row = replicate (nat actualMaxLen) 0;
          limit = min len actualMaxLen
      in fold (\<lambda>j r. r[j := 1]) [0..<nat limit] row)"

definition TextToSpeech_lengthToMask ::
  "int list \<Rightarrow> int option \<Rightarrow> js_error + real list list list" where
  "TextToSpeech_lengthToMask lengths maxLen =
     (if lengths = [] then Inr []
      else
        let actualMaxLen = (case maxLen of Some m \<Rightarrow> m | None \<Rightarrow> Max (set lengths))
        in if actualMaxLen < 0 then Inl RangeError
           else Inr (map (\<lambda>len. [mask_row len actualMaxLen]) lengths))"

text \<open>
  The Box-Muller transform of lines 238-240, from two results of \<open>Math.random()\<close>.
\<close>

definition box_muller :: "real \<Rightarrow> real \<Rightarrow> real" where
  "box_muller r1 r2 =
     (let u1 = max 0.0001 r1; u2 = r2
      in sqrt (- 2 * ln u1) * cos (2 * pi * u2))"

record NoisyLatent =
  nl_xt :: "real list list list"
  nl_latentMask :: "real list list list"
  nl_pos :: nat

text \<open>
  \<open>TextToSpeech.sampleNoisyLatent\<close> (lines 221-260). The cells of \<open>xt\<close> are filled in
  the order batch, dimension, time, each cell reading two elements of the random
  stream; cell \<open>(b, d, t)\<close> is the \<open>((b * D + d) * L + t)\<close>-th one.

  With an empty \<open>duration\<close> no loop body and no \<open>map\<close> callback runs, and both results
  are empty. Otherwise, when \<open>chunkSize\<close> is \<open>0\<close> the quotient that defines
  \<open>latentLen\<close> is infinite or NaN, and the source ends in a RangeError (\<open>new Array\<close> of
  a non-finite length in \<open>lengthToMask\<close>, or a row that grows past the largest
  array length); when \<open>latentLen\<close> is negative \<open>lengthToMask\<close> throws.
  In the last loop \<open>latentMask[b][0][t]\<close> is always in range.
\<close>

definition sampleNoisyLatent ::
  "(nat \<Rightarrow> real) \<Rightarrow> nat \<Rightarrow> real list \<Rightarrow> int \<Rightarrow> int \<Rightarrow> int \<Rightarrow> int \<Rightarrow> js_error + NoisyLatent" where
  "sampleNoisyLatent rand pos duration sampleRate baseChunkSize chunkCompress latentDim =
     (if duration = [] then Inr \<lparr>nl_xt = [], nl_latentMask = [], nl_pos = pos\<rparr>
      else
        let bsz = length duration;
            maxDur = Max (set duration);
            wavLenMax = \<lfloor>maxDur * of_int sampleRate\<rfloor>;
            wavLengths = map (\<lambda>d. \<lfloor>d * of_int sampleRate\<rfloor>) duration;
            chunkSize = baseChunkSize * chunkCompress
        in if chunkSize = 0 then Inl RangeError
           else
             let latentLen = \<lfloor>of_int (wavLenMax + chunkSize - 1) / (of_int chunkSize :: real)\<rfloor>;
                 latentDimVal = latentDim * chunkCompress;
                 D = nat latentDimVal;
                 L = nat latentLen;
                 val = (\<lambda>b d t. let k = (b * D + d) * L + t
                                  in box_muller (rand (pos + 2 * k)) (rand (pos + 2 * k + 1)));
                 latentLengths =
                   map (\<lambda>len. \<lfloor>of_int (len + chunkSize - 1) / (of_int chunkSize :: real)\<rfloor>) wavLengths
             in case TextToSpeech_lengthToMask latentLengths (Some latentLen) of
                  Inl e \<Rightarrow> Inl e
                | Inr lm \<Rightarrow>
                    Inr \<lparr>nl_xt = map (\<lambda>b. map (\<lambda>d. map (\<lambda>t. val b d t * (lm ! b ! 0 ! t))
                                                          [0..<L]) [0..<D]) [0..<bsz],
                            nl_latentMask = lm,
                            nl_pos = pos + 2 * (bsz * D * L)\<rparr>)"

text \<open>A stream of random numbers for concrete runs: every draw is \<open>1/4\<close>.\<close>

definition quarter_rand :: "nat \<Rightarrow> real" where
  "quarter_rand n = 1 / 4"

section \<open>Strings\<close>

text \<open>
  A string is a list of UTF-16 code units. \<open>js\<close> turns an ASCII literal into one.
\<close>

type_synonym jschar = "16 word"
type_synonym jsstring = "jschar list"

definition js :: "string \<Rightarrow> jsstring" where
  "js s = map (\<lambda>c. of_nat (of_char c)) s"

text \<open>
  \<open>String.prototype.codePointAt\<close> (ECMAScript, CodePointAt): \<open>undefined\<close> past the
  end; a leading surrogate followed by a trailing one yields the combined code point;
  any other code unit, also a trailing surrogate, yields itself.
\<close>

definition is_leading_surrogate :: "jschar \<Rightarrow> bool" where
  "is_leading_surrogate c \<longleftrightarrow> 0xD800 \<le> c \<and> c \<le> 0xDBFF"

definition is_trailing_surrogate :: "jschar \<Rightarrow> bool" where
  "is_trailing_surrogate c \<longleftrightarrow> 0xDC00 \<le> c \<and> c \<le> 0xDFFF"

definition codePointAt :: "jsstring \<Rightarrow> nat \<Rightarrow> nat option" where
  "codePointAt s position =
     (if length s \<le> position then None
      else
        let first = s ! position
        in if \<not> is_leading_surrogate first \<or> position + 1 = length s then Some (unat first)
           else
             let second = s ! (position + 1)
             in if \<not> is_trailing_surrogate second then Some (unat first)
                else Some ((unat first - 0xD800) * 0x400 + (unat second - 0xDC00) + 0x10000))"

text \<open>
  The white space of \<open>trim\<close> and of the regular expression class \<open>\s\<close> (WhiteSpace and
  LineTerminator of ECMAScript).
\<close>

definition is_ws :: "jschar \<Rightarrow> bool" where
  "is_ws c \<longleftrightarrow>
     c = 0x09 \<or> c = 0x0A \<or> c = 0x0B \<or> c = 0x0C \<or> c = 0x0D \<or> c = 0x20 \<or> c = 0xA0 \<or>
     c = 0x1680 \<or> (0x2000 \<le> c \<and> c \<le> 0x200A) \<or> c = 0x2028 \<or> c = 0x2029 \<or>
     c = 0x202F \<or> c = 0x205F \<or> c = 0x3000 \<or> c = 0xFEFF"

definition trim :: "jsstring \<Rightarrow> jsstring" where
  "trim s = rev (dropWhile is_ws (rev (dropWhile is_ws s)))"

section \<open>Codepoint indexer\<close>

text \<open>
  \<open>Math.max(...lengths)\<close> on lengths. For an empty list JavaScript yields \<open>-Infinity\<close>;
  the value is then only handed to callbacks of \<open>map\<close> over an empty array, which never
  run, so the model's \<open>0\<close> is not observable.
\<close>

definition Math_max :: "nat list \<Rightarrow> nat" where
  "Math_max lengths = fold max lengths 0"

text \<open>\<open>UnicodeProcessor.lengthToMask\<close> (lines 85-95) and \<open>getTextMask\<close> (lines 80-83).\<close>

definition UnicodeProcessor_lengthToMask :: "nat list \<Rightarrow> nat option \<Rightarrow> real list list list" where
  "UnicodeProcessor_lengthToMask lengths maxLen =
     (let actualMaxLen = (case maxLen of Some m \<Rightarrow> m | None \<Rightarrow> Math_max lengths)
      in map (\<lambda>len.
                let row = replicate actualMaxLen 0;
                    limit = min len actualMaxLen
                in [fold (\<lambda>j r. r[j := 1]) [0..<limit] row]) lengths)"

definition getTextMask :: "nat list \<Rightarrow> real list list list" where
  "getTextMask textIdsLengths =
     (let maxLen = Math_max textIdsLengths
      in UnicodeProcessor_lengthToMask textIdsLengths (Some maxLen))"

record Tokenized =
  tok_textIds :: "int list list"
  tok_textMask :: "real list list list"

text \<open>
  \<open>UnicodeProcessor.call\<close> (lines 53-74). \<open>nfkc\<close> stands for the runtime's
  \<open>String.prototype.normalize("NFKC")\<close> and \<open>table\<close> for the indexer array. The index \<open>j\<close>
  runs over the code units of the text (\<open>text.length\<close>), and \<open>row[j]\<close> is always inside the
  row, whose length is the largest \<open>text.length\<close> of the batch.
\<close>

definition index_row :: "int list \<Rightarrow> nat \<Rightarrow> jsstring \<Rightarrow> int list" where
  "index_row table maxLen text =
     fold (\<lambda>j row.
             case codePointAt text j of
               None \<Rightarrow> row
             | Some codePoint \<Rightarrow>
                 let indexValue = (if codePoint < length table then table ! codePoint else - 1)
                 in row[j := indexValue])
          [0..<length text] (replicate maxLen 0)"

definition UnicodeProcessor_call ::
  "(jsstring \<Rightarrow> jsstring) \<Rightarrow> int list \<Rightarrow> jsstring list \<Rightarrow> Tokenized" where
  "UnicodeProcessor_call nfkc table textList =
     (let processedTexts = map nfkc textList;
          textIdsLengths = map length processedTexts;
          maxLen = Math_max textIdsLengths;
          textIds = map (index_row table maxLen) processedTexts;
          textMask = getTextMask textIdsLengths
      in \<lparr>tok_textIds = textIds, tok_textMask = textMask\<rparr>)"

section \<open>Chunker\<close>

text \<open>
  A regular expression is modelled by its sticky matcher: \<open>m s q\<close> is the length of the
  match of the expression in \<open>s\<close> that starts exactly at index \<open>q\<close>, if there is one.
  \<open>String.prototype.split\<close> with a regular expression (ECMAScript, RegExp.prototype
  [Symbol.split]) scans \<open>q\<close> upwards from the start \<open>p\<close> of the current piece: a failed
  match, or a match that ends at \<open>p\<close>, moves \<open>q\<close> one unit on; any other match closes the
  piece \<open>s[p..q)\<close> and restarts both indices at the end of the match. Neither expression
  of the source has capture groups.
\<close>

type_synonym matcher = "jsstring \<Rightarrow> nat \<Rightarrow> nat option"

function split_from :: "matcher \<Rightarrow> jsstring \<Rightarrow> nat \<Rightarrow> nat \<Rightarrow> jsstring list" where
  "split_from m s p q =
     (if q < length s then
        (case m s q of
           None \<Rightarrow> split_from m s p (Suc q)
         | Some n \<Rightarrow>
             if min (q + n) (length s) = p then split_from m s p (Suc q)
             else take (q - p) (drop p s) # split_from m s (min (q + n) (length s)) (min (q + n) (length s)))
      else [drop p s])"
  by pat_completeness auto
termination
  by (relation "measure (\<lambda>(m, s, p, q). 2 * (length s - q) + (if p = q then 0 else 1))")
     (auto split: if_splits)

declare split_from.simps [simp del]

definition js_split :: "matcher \<Rightarrow> jsstring \<Rightarrow> jsstring list" where
  "js_split m s =
     (if s = [] then (case m s 0 of Some n \<Rightarrow> [] | None \<Rightarrow> [s])
      else split_from m s 0 0)"

text \<open>
  The same scan, returning the matches that close a piece as pairs (start, end).
  The pieces of \<open>split_from\<close> are the slices between these cuts
  (lemma \<open>split_from_pieces\<close>).
\<close>

function split_cuts :: "matcher \<Rightarrow> jsstring \<Rightarrow> nat \<Rightarrow> nat \<Rightarrow> (nat \<times> nat) list" where
  "split_cuts m s p q =
     (if q < length s then
        (case m s q of
           None \<Rightarrow> split_cuts m s p (Suc q)
         | Some n \<Rightarrow>
             if min (q + n) (length s) = p then split_cuts m s p (Suc q)
             else (q, min (q + n) (length s)) # split_cuts m s (min (q + n) (length s)) (min (q + n) (length s)))
      else [])"
  by pat_completeness auto
termination
  by (relation "measure (\<lambda>(m, s, p, q). 2 * (length s - q) + (if p = q then 0 else 1))")
     (auto split: if_splits)

declare split_cuts.simps [simp del]

fun pieces_of :: "jsstring \<Rightarrow> nat \<Rightarrow> (nat \<times> nat) list \<Rightarrow> jsstring list" where
  "pieces_of s p [] = [drop p s]"
| "pieces_of s p ((q, e) # cuts) = take (q - p) (drop p s) # pieces_of s e cuts"

text \<open>
  The paragraph separator \<open>/\n\s*\n+/\<close> at index \<open>q\<close>: a line feed, then \<open>\s*\<close>, which is
  greedy and gives characters back one at a time, so the candidate lengths \<open>k\<close> of its
  match are tried from the whole run of white space downwards; the first \<open>k\<close> after which
  a line feed stands is taken, and \<open>\n+\<close> then takes every line feed that follows.
\<close>

definition blank_line_match :: matcher where
  "blank_line_match s q =
     (if q < length s \<and> s ! q = 0x0A then
        let rest = drop (Suc q) s;
            run = length (takeWhile is_ws rest);
            ks = filter (\<lambda>k. k < length rest \<and> rest ! k = 0x0A) (rev [0..<Suc run])
        in (case ks of
              [] \<Rightarrow> None
            | k # _ \<Rightarrow> Some (1 + k + length (takeWhile (\<lambda>c. c = 0x0A) (drop k rest))))
      else None)"

text \<open>
  The sentence separator of line 376,
  \<open>(?<!Mr\.|Mrs\.|...|Blvd\.)(?<!\b[A-Z]\.)(?<=[.!?])\s+\<close>: two negative look-behinds
  and a positive one, all evaluated at the index where the match starts, then the
  longest run of white space.
\<close>

definition abbreviations :: "jsstring list" where
  "abbreviations = map js
     [''Mr.'', ''Mrs.'', ''Ms.'', ''Dr.'', ''Prof.'', ''Sr.'', ''Jr.'', ''Ph.D.'', ''etc.'',
      ''e.g.'', ''i.e.'', ''vs.'', ''Inc.'', ''Ltd.'', ''Co.'', ''Corp.'', ''St.'', ''Ave.'',
      ''Blvd.'']"

definition ends_at :: "jsstring \<Rightarrow> nat \<Rightarrow> jsstring \<Rightarrow> bool" where
  "ends_at s q a \<longleftrightarrow>
     length a \<le> q \<and> q \<le> length s \<and> take (length a) (drop (q - length a) s) = a"

definition abbreviation_before :: "jsstring \<Rightarrow> nat \<Rightarrow> bool" where
  "abbreviation_before s q \<longleftrightarrow> list_ex (ends_at s q) abbreviations"

definition is_word_char :: "jschar \<Rightarrow> bool" where
  "is_word_char c \<longleftrightarrow>
     (0x30 \<le> c \<and> c \<le> 0x39) \<or> (0x41 \<le> c \<and> c \<le> 0x5A) \<or> c = 0x5F \<or> (0x61 \<le> c \<and> c \<le> 0x7A)"

definition is_upper :: "jschar \<Rightarrow> bool" where
  "is_upper c \<longleftrightarrow> 0x41 \<le> c \<and> c \<le> 0x5A"

definition word_boundary :: "jsstring \<Rightarrow> nat \<Rightarrow> bool" where
  "word_boundary s i \<longleftrightarrow>
     (0 < i \<and> i \<le> length s \<and> is_word_char (s ! (i - 1))) \<noteq> (i < length s \<and> is_word_char (s ! i))"

definition initial_before :: "jsstring \<Rightarrow> nat \<Rightarrow> bool" where
  "initial_before s q \<longleftrightarrow>
     2 \<le> q \<and> q \<le> length s \<and> s ! (q - 1) = 0x2E \<and> is_upper (s ! (q - 2)) \<and> word_boundary s (q - 2)"

definition sentence_end_before :: "jsstring \<Rightarrow> nat \<Rightarrow> bool" where
  "sentence_end_before s q \<longleftrightarrow>
     1 \<le> q \<and> q \<le> length s \<and> (s ! (q - 1) = 0x2E \<or> s ! (q - 1) = 0x21 \<or> s ! (q - 1) = 0x3F)"

definition sentence_break_match :: matcher where
  "sentence_break_match s q =
     (if abbreviation_before s q then None
      else if initial_before s q then None
      else if \<not> sentence_end_before s q then None
      else
        let n = length (takeWhile is_ws (drop q s))
        in if n = 0 then None else Some n)"

text \<open>
  \<open>chunkText\<close> (lines 357-397). The inner loop over the sentences carries
  \<open>currentChunk\<close> and the \<open>chunks\<close> pushed so far. The test
  \<open>typeof text !== "string"\<close> cannot fail on a \<open>jsstring\<close>.
\<close>

fun pack_sentences ::
  "int \<Rightarrow> jsstring list \<Rightarrow> jsstring \<Rightarrow> jsstring list \<Rightarrow> jsstring \<times> jsstring list" where
  "pack_sentences maxLen [] currentChunk chunks = (currentChunk, chunks)"
| "pack_sentences maxLen (sentence # sentences) currentChunk chunks =
     (if int (length currentChunk) + int (length sentence) + 1 \<le> maxLen
      then pack_sentences maxLen sentences
             (currentChunk @ (if currentChunk \<noteq> [] then js '' '' else []) @ sentence) chunks
      else pack_sentences maxLen sentences sentence
             (if currentChunk \<noteq> [] then chunks @ [trim currentChunk] else chunks))"

definition chunk_paragraph :: "int \<Rightarrow> jsstring \<Rightarrow> jsstring list \<Rightarrow> jsstring list" where
  "chunk_paragraph maxLen paragraph chunks =
     (let trimmed = trim paragraph
      in if trimmed = [] then chunks
         else
           let sentences = js_split sentence_break_match trimmed;
               packed = pack_sentences maxLen sentences [] chunks
           in if fst packed \<noteq> [] then snd packed @ [trim (fst packed)] else snd packed)"

definition chunkText :: "jsstring \<Rightarrow> int \<Rightarrow> jsstring list" where
  "chunkText text maxLen =
     (let paragraphs = filter (\<lambda>p. 0 < length (trim p)) (js_split blank_line_match (trim text))
      in fold (chunk_paragraph maxLen) paragraphs [])"

section \<open>Inference orchestrator\<close>

text \<open>
  An \<open>ort.Tensor\<close> is its flat data and its dimensions. The checks that the
  onnxruntime library itself performs on tensors, and failures inside a session, are
  outside the embedding: a session is a function of its input tensors.
\<close>

record 'a Tensor =
  data :: "'a list"
  dims :: "int list"

record TtsConfig =
  sample_rate :: int
  base_chunk_size :: int
  chunk_compress_factor :: int
  latent_dim :: int

record Style =
  ttl :: "real Tensor"
  dp :: "real Tensor"

text \<open>
  The class \<open>TextToSpeech\<close>: configuration, text processor (indexer table and the
  runtime's NFKC normalisation) and the four sessions. The arguments of a session are
  listed in the order of the object literal passed to \<open>run\<close> in the source:
  \<open>dpOrt text_ids style_dp text_mask\<close> yields \<open>duration.data\<close>,
  \<open>textEncOrt text_ids style_ttl text_mask\<close> yields \<open>text_emb\<close>,
  \<open>vectorEstOrt noisy_latent text_emb style_ttl latent_mask text_mask current_step
  total_step\<close> yields \<open>denoised_latent.data\<close>, and \<open>vocoderOrt latent\<close> yields
  \<open>wav_tts.data\<close>.
\<close>

record TextToSpeech =
  cfgs :: TtsConfig
  textProcessor :: "int list"
  normalizeNFKC :: "jsstring \<Rightarrow> jsstring"
  dpOrt :: "int Tensor \<Rightarrow> real Tensor \<Rightarrow> real Tensor \<Rightarrow> real list"
  textEncOrt :: "int Tensor \<Rightarrow> real Tensor \<Rightarrow> real Tensor \<Rightarrow> real Tensor"
  vectorEstOrt :: "real Tensor \<Rightarrow> real Tensor \<Rightarrow> real Tensor \<Rightarrow> real Tensor \<Rightarrow> real Tensor
                   \<Rightarrow> real Tensor \<Rightarrow> real Tensor \<Rightarrow> real list"
  vocoderOrt :: "real Tensor \<Rightarrow> real list"

text \<open>The calls of the sessions, as they are recorded in the trace.\<close>

datatype event =
    DurationPredictorRun "int Tensor" "real Tensor" "real Tensor"
  | TextEncoderRun "int Tensor" "real Tensor" "real Tensor"
  | VectorEstimatorRun (noisy_latent: "real Tensor") (current_step: "real Tensor")
      (total_step: "real Tensor")
  | VocoderRun "real Tensor"

text \<open>\<open>a[0]?.length ?? 0\<close> and \<open>a[0]?.[0]?.length ?? 0\<close>.\<close>

definition len0 :: "'a list list \<Rightarrow> nat" where
  "len0 a = (case a of [] \<Rightarrow> 0 | r # _ \<Rightarrow> length r)"

definition len00 :: "'a list list list \<Rightarrow> nat" where
  "len00 a = (case a of [] \<Rightarrow> 0 | [] # _ \<Rightarrow> 0 | (r # _) # _ \<Rightarrow> length r)"

text \<open>
  The denoising loop (lines 169-206), with the loop variable \<open>step\<close>, the latent \<open>xt\<close>
  and the trace as its state; \<open>denoise_step\<close> is its body. \<open>denoisedData[idx] ?? 0\<close> reads \<open>0\<close> past the end of the
  output; \<open>idx\<close> counts the cells in the order batch, dimension, time.
\<close>

definition xt_tensor :: "nat \<Rightarrow> real list list list \<Rightarrow> real Tensor" where
  "xt_tensor bsz xt =
     \<lparr>data = concat (concat xt), dims = [int bsz, int (len0 xt), int (len00 xt)]\<rparr>"

definition next_xt :: "nat \<Rightarrow> real list list list \<Rightarrow> real list \<Rightarrow> real list list list" where
  "next_xt bsz xt denoisedData =
     (let latentDim = len0 xt;
          latentLen = len00 xt
      in map (\<lambda>b. map (\<lambda>d. map (\<lambda>t. let idx = (b * latentDim + d) * latentLen + t
                                      in if idx < length denoisedData then denoisedData ! idx else 0)
                                [0..<latentLen]) [0..<latentDim]) [0..<bsz])"

definition step_tensor :: "nat \<Rightarrow> int \<Rightarrow> real Tensor" where
  "step_tensor bsz step = \<lparr>data = replicate bsz (of_int step), dims = [int bsz]\<rparr>"

definition denoise_step ::
  "TextToSpeech \<Rightarrow> nat \<Rightarrow> real Tensor \<Rightarrow> Style \<Rightarrow> real Tensor \<Rightarrow> real Tensor \<Rightarrow> real Tensor
   \<Rightarrow> int \<Rightarrow> real list list list \<Rightarrow> real list list list" where
  "denoise_step tts bsz textEmb style latentMaskTensor textMaskTensor totalStepTensor step xt =
     (let currentStepTensor = step_tensor bsz step;
          xtTensor = xt_tensor bsz xt;
          denoisedData = vectorEstOrt tts xtTensor textEmb (ttl style) latentMaskTensor
                           textMaskTensor currentStepTensor totalStepTensor
      in next_xt bsz xt denoisedData)"

function denoise_loop ::
  "TextToSpeech \<Rightarrow> nat \<Rightarrow> real Tensor \<Rightarrow> Style \<Rightarrow> real Tensor \<Rightarrow> real Tensor \<Rightarrow> real Tensor
   \<Rightarrow> int \<Rightarrow> int \<Rightarrow> real list list list \<Rightarrow> event list \<Rightarrow> real list list list \<times> event list" where
  "denoise_loop tts bsz textEmb style latentMaskTensor textMaskTensor totalStepTensor
     totalStep step xt trace =
     (if step < totalStep then
        denoise_loop tts bsz textEmb style latentMaskTensor textMaskTensor totalStepTensor
          totalStep (step + 1)
          (denoise_step tts bsz textEmb style latentMaskTensor textMaskTensor totalStepTensor step xt)
          (trace @ [VectorEstimatorRun (xt_tensor bsz xt) (step_tensor bsz step) totalStepTensor])
      else (xt, trace))"
  by pat_completeness auto
termination
  by (relation "measure (\<lambda>(tts, bsz, textEmb, style, lmt, tmt, tst, totalStep, step, xt, trace).
                            nat (totalStep - step))")
     auto

declare denoise_loop.simps [simp del]

record InferResult =
  out_wav :: "real list"
  out_duration :: "real list"
  out_pos :: nat

text \<open>
  \<open>TextToSpeech.infer\<close> (lines 127-219). The result is the trace of the session calls
  together with the outcome; the tensors of lines 130-138, the output of the duration
  predictor (line 145), the two calls that precede the sampler, and the tensors and the
  loop of lines 162-206 (\<open>run_denoise\<close>) have names of their own. When \<open>speed\<close> is
  \<open>0\<close> and the duration predictor returned at
  least one element, line 148 produces infinities or NaN; the text encoder is still
  run, and \<open>sampleNoisyLatent\<close> then cannot return (its \<open>latentLen\<close> is not finite).
\<close>

definition text_ids_tensor :: "TextToSpeech \<Rightarrow> jsstring list \<Rightarrow> int Tensor" where
  "text_ids_tensor tts textList =
     (let textIds = tok_textIds (UnicodeProcessor_call (normalizeNFKC tts) (textProcessor tts) textList)
      in \<lparr>data = concat textIds, dims = [int (length textList), int (len0 textIds)]\<rparr>)"

definition text_mask_tensor :: "TextToSpeech \<Rightarrow> jsstring list \<Rightarrow> real Tensor" where
  "text_mask_tensor tts textList =
     (let textMask = tok_textMask (UnicodeProcessor_call (normalizeNFKC tts) (textProcessor tts) textList)
      in \<lparr>data = concat (concat textMask), dims = [int (length textList), 1, int (len00 textMask)]\<rparr>)"

definition dp_data :: "TextToSpeech \<Rightarrow> jsstring list \<Rightarrow> Style \<Rightarrow> real list" where
  "dp_data tts textList style =
     dpOrt tts (text_ids_tensor tts textList) (dp style) (text_mask_tensor tts textList)"

definition infer_prelude :: "TextToSpeech \<Rightarrow> jsstring list \<Rightarrow> Style \<Rightarrow> event list" where
  "infer_prelude tts textList style =
     [DurationPredictorRun (text_ids_tensor tts textList) (dp style) (text_mask_tensor tts textList),
      TextEncoderRun (text_ids_tensor tts textList) (ttl style) (text_mask_tensor tts textList)]"

definition initial_latent ::
  "TextToSpeech \<Rightarrow> (nat \<Rightarrow> real) \<Rightarrow> nat \<Rightarrow> real list \<Rightarrow> js_error + NoisyLatent" where
  "initial_latent tts rand pos duration =
     sampleNoisyLatent rand pos duration (sample_rate (cfgs tts)) (base_chunk_size (cfgs tts))
       (chunk_compress_factor (cfgs tts)) (latent_dim (cfgs tts))"

definition latent_mask_tensor :: "nat \<Rightarrow> real list list list \<Rightarrow> real Tensor" where
  "latent_mask_tensor bsz lm =
     \<lparr>data = concat (concat lm), dims = [int bsz, 1, int (len00 lm)]\<rparr>"

definition run_denoise ::
  "TextToSpeech \<Rightarrow> jsstring list \<Rightarrow> Style \<Rightarrow> int \<Rightarrow> NoisyLatent \<Rightarrow> event list
   \<Rightarrow> real list list list \<times> event list" where
  "run_denoise tts textList style totalStep maskCong trace =
     (let bsz = length textList;
          textEmb = textEncOrt tts (text_ids_tensor tts textList) (ttl style)
                      (text_mask_tensor tts textList);
          latentMaskTensor = latent_mask_tensor bsz (nl_latentMask maskCong);
          totalStepTensor = step_tensor bsz totalStep
      in denoise_loop tts bsz textEmb style latentMaskTensor (text_mask_tensor tts textList)
           totalStepTensor totalStep 0 (nl_xt maskCong) trace)"

definition infer ::
  "TextToSpeech \<Rightarrow> (nat \<Rightarrow> real) \<Rightarrow> nat \<Rightarrow> jsstring list \<Rightarrow> Style \<Rightarrow> int \<Rightarrow> real
   \<Rightarrow> event list \<times> (js_error + InferResult)" where
  "infer tts rand pos textList style totalStep speed =
     (let bsz = length textList;
          dpData = dp_data tts textList style;
          prelude = infer_prelude tts textList style
      in if dpData \<noteq> [] \<and> speed = 0 then (prelude, Inl RangeError)
         else
           let duration = map (\<lambda>d. d / speed) dpData
           in case initial_latent tts rand pos duration of
                Inl e \<Rightarrow> (prelude, Inl e)
              | Inr maskCong \<Rightarrow>
                  let looped = run_denoise tts textList style totalStep maskCong prelude;
                      finalXtTensor = xt_tensor bsz (fst looped);
                      wav = vocoderOrt tts finalXtTensor
                  in (snd looped @ [VocoderRun finalXtTensor],
                      Inr \<lparr>out_wav = wav, out_duration = duration, out_pos = nl_pos maskCong\<rparr>))"

section \<open>Chunked synthesis\<close>

text \<open>
  The loop of \<open>TextToSpeech.call\<close> (lines 283-295) over the remaining chunks, with
  \<open>wavCat\<close>, \<open>durCat\<close>, the position in the random stream and the trace as its state.
  \<open>new Array(silenceLen)\<close> throws for a negative length.
\<close>

definition first_or_zero :: "real list \<Rightarrow> real" where
  "first_or_zero a = (case a of [] \<Rightarrow> 0 | d # _ \<Rightarrow> d)"

fun call_loop ::
  "TextToSpeech \<Rightarrow> (nat \<Rightarrow> real) \<Rightarrow> Style \<Rightarrow> int \<Rightarrow> real \<Rightarrow> real \<Rightarrow> jsstring list
   \<Rightarrow> real list \<Rightarrow> real \<Rightarrow> nat \<Rightarrow> event list \<Rightarrow> event list \<times> (js_error + InferResult)" where
  "call_loop tts rand style totalStep speed silenceDuration [] wavCat durCat pos trace =
     (trace, Inr \<lparr>out_wav = wavCat, out_duration = [durCat], out_pos = pos\<rparr>)"
| "call_loop tts rand style totalStep speed silenceDuration (chunk # textList) wavCat durCat pos trace =
     (case infer tts rand pos [chunk] style totalStep speed of
        (evs, Inl e) \<Rightarrow> (trace @ evs, Inl e)
      | (evs, Inr r) \<Rightarrow>
          if length wavCat = 0
          then call_loop tts rand style totalStep speed silenceDuration textList
                 (out_wav r) (first_or_zero (out_duration r)) (out_pos r) (trace @ evs)
          else
            let silenceLen = \<lfloor>silenceDuration * of_int (sample_rate (cfgs tts))\<rfloor>
            in if silenceLen < 0 then (trace @ evs, Inl RangeError)
               else call_loop tts rand style totalStep speed silenceDuration textList
                      (wavCat @ replicate (nat silenceLen) 0 @ out_wav r)
                      (durCat + (first_or_zero (out_duration r) + silenceDuration))
                      (out_pos r) (trace @ evs))"

text \<open>
  \<open>TextToSpeech.call\<close> (lines 274-298); \<open>chunkText\<close> is called with its default
  \<open>maxLen = 300\<close>. An empty \<open>dims\<close> makes \<open>dims[0]\<close> undefined, which is not \<open>1\<close>.
\<close>

definition call ::
  "TextToSpeech \<Rightarrow> (nat \<Rightarrow> real) \<Rightarrow> nat \<Rightarrow> jsstring \<Rightarrow> Style \<Rightarrow> int \<Rightarrow> real \<Rightarrow> real
   \<Rightarrow> event list \<times> (js_error + InferResult)" where
  "call tts rand pos text style totalStep speed silenceDuration =
     (if (case dims (ttl style) of [] \<Rightarrow> True | d0 # _ \<Rightarrow> d0 \<noteq> 1)
      then ([], Inl SingleStyleError)
      else
        let textList = chunkText text 300
        in call_loop tts rand style totalStep speed silenceDuration textList [] 0 pos [])"

section \<open>Voice styles\<close>

datatype VoiceStyleId = F1 | F2 | M1 | M2

record VoiceStyleTensorJson =
  json_dims :: "int \<times> int \<times> int"
  json_data :: "real list list list"

record VoiceStyleJson =
  style_ttl :: VoiceStyleTensorJson
  style_dp :: VoiceStyleTensorJson

text \<open>
  \<open>loadVoiceStyle\<close> (lines 399-427), applied to the fetched JSON document. The cache
  only avoids a second fetch of the same document and is not modelled.
  \<open>new Float32Array(n)\<close> throws a RangeError for a negative \<open>n\<close>, and
  \<open>Float32Array.prototype.set\<close> throws one when the source is longer than the target; a
  shorter source leaves zeros at the end. The tensor is always built with first
  dimension \<open>1\<close>. Both arrays are allocated before either is filled.
\<close>

definition new_Float32Array :: "int \<Rightarrow> js_error + real list" where
  "new_Float32Array n = (if n < 0 then Inl RangeError else Inr (replicate (nat n) 0))"

definition typed_array_set :: "real list \<Rightarrow> real list \<Rightarrow> js_error + real list" where
  "typed_array_set target source =
     (if length target < length source then Inl RangeError
      else Inr (source @ drop (length source) target))"

definition loadVoiceStyle :: "VoiceStyleJson \<Rightarrow> js_error + Style" where
  "loadVoiceStyle voiceStyle =
     (let ttlDims = json_dims (style_ttl voiceStyle);
          dpDims = json_dims (style_dp voiceStyle);
          ttlDim1 = fst (snd ttlDims);
          ttlDim2 = snd (snd ttlDims);
          dpDim1 = fst (snd dpDims);
          dpDim2 = snd (snd dpDims)
      in case new_Float32Array (ttlDim1 * ttlDim2) of
           Inl e \<Rightarrow> Inl e
         | Inr ttlFlat0 \<Rightarrow>
             (case new_Float32Array (dpDim1 * dpDim2) of
                Inl e \<Rightarrow> Inl e
              | Inr dpFlat0 \<Rightarrow>
                  (case typed_array_set ttlFlat0 (concat (concat (json_data (style_ttl voiceStyle)))) of
                     Inl e \<Rightarrow> Inl e
                   | Inr ttlFlat \<Rightarrow>
                       (case typed_array_set dpFlat0 (concat (concat (json_data (style_dp voiceStyle)))) of
                          Inl e \<Rightarrow> Inl e
                        | Inr dpFlat \<Rightarrow>
                            Inr \<lparr>ttl = \<lparr>data = ttlFlat, dims = [1, ttlDim1, ttlDim2]\<rparr>,
                                 dp = \<lparr>data = dpFlat, dims = [1, dpDim1, dpDim2]\<rparr>\<rparr>))))"

section \<open>WAV encoder\<close>

text \<open>
  An \<open>ArrayBuffer\<close> is a list of bytes. The setters of \<open>DataView\<close> throw a RangeError
  when the value does not fit between the offset and the end of the view; otherwise
  they store the value modulo \<open>2 ^ 8\<close>, \<open>2 ^ 16\<close> or \<open>2 ^ 32\<close>, here always with the least
  significant byte first (\<open>littleEndian = true\<close>). \<open>setInt16\<close> stores the same two
  bytes as \<open>setUint16\<close>.
\<close>

type_synonym bytes = "8 word list"

definition le16 :: "16 word \<Rightarrow> bytes" where
  "le16 w = [ucast w, ucast (drop_bit 8 w)]"

definition le32 :: "32 word \<Rightarrow> bytes" where
  "le32 w = [ucast w, ucast (drop_bit 8 w), ucast (drop_bit 16 w), ucast (drop_bit 24 w)]"

definition set_bytes :: "nat \<Rightarrow> bytes \<Rightarrow> bytes \<Rightarrow> js_error + bytes" where
  "set_bytes byteOffset value buffer =
     (if length buffer < byteOffset + length value then Inl RangeError
      else Inr (take byteOffset buffer @ value @ drop (byteOffset + length value) buffer))"

definition setUint8 :: "nat \<Rightarrow> int \<Rightarrow> bytes \<Rightarrow> js_error + bytes" where
  "setUint8 byteOffset v = set_bytes byteOffset [word_of_int v]"

definition setUint16 :: "nat \<Rightarrow> int \<Rightarrow> bytes \<Rightarrow> js_error + bytes" where
  "setUint16 byteOffset v = set_bytes byteOffset (le16 (word_of_int v))"

definition setInt16 :: "nat \<Rightarrow> int \<Rightarrow> bytes \<Rightarrow> js_error + bytes" where
  "setInt16 byteOffset v = set_bytes byteOffset (le16 (word_of_int v))"

definition setUint32 :: "nat \<Rightarrow> int \<Rightarrow> bytes \<Rightarrow> js_error + bytes" where
  "setUint32 byteOffset v = set_bytes byteOffset (le32 (word_of_int v))"

text \<open>A sequence of statements that write to the view; the first exception ends it.\<close>

fun run_writes :: "(bytes \<Rightarrow> js_error + bytes) list \<Rightarrow> bytes \<Rightarrow> js_error + bytes" where
  "run_writes [] buffer = Inr buffer"
| "run_writes (w # ws) buffer =
     (case w buffer of Inl e \<Rightarrow> Inl e | Inr buffer' \<Rightarrow> run_writes ws buffer')"

text \<open>The local function \<open>writeString\<close> (lines 439-443), on the code units of the string.\<close>

definition writeString :: "nat \<Rightarrow> jsstring \<Rightarrow> bytes \<Rightarrow> js_error + bytes" where
  "writeString offset string =
     run_writes (map (\<lambda>i. setUint8 (offset + i) (uint (string ! i))) [0..<length string])"

text \<open>
  \<open>writeWavToBuffer\<close> (lines 429-468). The divisions by \<open>8\<close> are exact, since
  \<open>bitsPerSample\<close> is \<open>16\<close>.
\<close>

definition writeWavToBuffer :: "real list \<Rightarrow> int \<Rightarrow> js_error + bytes" where
  "writeWavToBuffer audioData sampleRate =
     (let numChannels = 1;
          bitsPerSample = 16;
          byteRate = (sampleRate * numChannels * bitsPerSample) div 8;
          blockAlign = (numChannels * bitsPerSample) div 8;
          dataSize = (int (length audioData) * bitsPerSample) div 8;
          buffer = replicate (nat (44 + dataSize)) 0
      in run_writes
           ([writeString 0 (js ''RIFF''),
             setUint32 4 (36 + dataSize),
             writeString 8 (js ''WAVE''),
             writeString 12 (js ''fmt ''),
             setUint32 16 16,
             setUint16 20 1,
             setUint16 22 numChannels,
             setUint32 24 sampleRate,
             setUint32 28 byteRate,
             setUint16 32 blockAlign,
             setUint16 34 bitsPerSample,
             writeString 36 (js ''data''),
             setUint32 40 dataSize]
            @ map (\<lambda>i. let sample = max (- 1) (min 1 (audioData ! i));
                            intSample = \<lfloor>sample * 32767\<rfloor>
                        in setInt16 (44 + i * 2) intSample)
                  [0..<length audioData])
           buffer)"

section \<open>Synthesis entry point\<close>

record SynthesizeOptions =
  opt_text :: jsstring
  opt_voiceStyle :: VoiceStyleId
  opt_totalStep :: int
  opt_speed :: real
  opt_silenceDurationSeconds :: "real option"

record SynthesisResult =
  res_wavBuffer :: bytes
  res_sampleRate :: int
  res_durationSeconds :: real

text \<open>\<open>wav.slice(0, wavLen)\<close>: a negative end counts from the end of the array.\<close>

definition slice0 :: "'a list \<Rightarrow> int \<Rightarrow> 'a list" where
  "slice0 a end = (if end < 0 then take (length a - nat (- end)) a else take (nat end) a)"

text \<open>
  \<open>synthesize\<close> (lines 471-497), on a loaded \<open>TextToSpeech\<close> object (the global that
  the first request creates) and the voice style documents that \<open>fetchJson\<close> delivers.
  Failures of fetching and of creating the sessions are outside the embedding.
\<close>

definition synthesize ::
  "TextToSpeech \<Rightarrow> (VoiceStyleId \<Rightarrow> VoiceStyleJson) \<Rightarrow> (nat \<Rightarrow> real) \<Rightarrow> nat
   \<Rightarrow> SynthesizeOptions \<Rightarrow> event list \<times> (js_error + SynthesisResult)" where
  "synthesize textToSpeech assets rand pos options =
     (let silenceDuration =
            (case opt_silenceDurationSeconds options of Some v \<Rightarrow> v | None \<Rightarrow> 0.3)
      in case loadVoiceStyle (assets (opt_voiceStyle options)) of
           Inl e \<Rightarrow> ([], Inl e)
         | Inr style \<Rightarrow>
             (case call textToSpeech rand pos (opt_text options) style (opt_totalStep options)
                     (opt_speed options) silenceDuration of
                (trace, Inl e) \<Rightarrow> (trace, Inl e)
              | (trace, Inr r) \<Rightarrow>
                  let effectiveDuration = first_or_zero (out_duration r);
                      wavLen = \<lfloor>of_int (sample_rate (cfgs textToSpeech)) * effectiveDuration\<rfloor>;
                      wavOut = slice0 (out_wav r) wavLen
                  in (case writeWavToBuffer wavOut (sample_rate (cfgs textToSpeech)) of
                        Inl e \<Rightarrow> (trace, Inl e)
                      | Inr wavBuffer \<Rightarrow>
                          (trace,
                           Inr \<lparr>res_wavBuffer = wavBuffer,
                                res_sampleRate = sample_rate (cfgs textToSpeech),
                                res_durationSeconds = effectiveDuration\<rparr>))))"

section \<open>Notions used in the statements\<close>

text \<open>
  The following definitions do not come from the source. They name what the
  statements below talk about.
\<close>

text \<open>A latent of shape \<open>[B, D, L]\<close>: \<open>B\<close> batches of \<open>D\<close> rows of length \<open>L\<close>.\<close>

definition has_shape :: "real list list list \<Rightarrow> nat \<Rightarrow> nat \<Rightarrow> nat \<Rightarrow> bool" where
  "has_shape x B D L \<longleftrightarrow>
     length x = B \<and> list_all (\<lambda>b. length b = D \<and> list_all (\<lambda>r. length r = L) b) x"

text \<open>The latent after the first \<open>n\<close> passes through the body of the denoising loop.\<close>

primrec latent_after ::
  "TextToSpeech \<Rightarrow> nat \<Rightarrow> real Tensor \<Rightarrow> Style \<Rightarrow> real Tensor \<Rightarrow> real Tensor \<Rightarrow> real Tensor
   \<Rightarrow> real list list list \<Rightarrow> nat \<Rightarrow> real list list list" where
  "latent_after tts bsz textEmb style lmt tmt tst xt0 0 = xt0"
| "latent_after tts bsz textEmb style lmt tmt tst xt0 (Suc n) =
     denoise_step tts bsz textEmb style lmt tmt tst (int n)
       (latent_after tts bsz textEmb style lmt tmt tst xt0 n)"

text \<open>
  A flat array read as a latent of shape \<open>[B, D, L]\<close>, in the order batch, dimension,
  time; a position past the end of the array reads \<open>0\<close>.
\<close>

definition reshape3 :: "nat \<Rightarrow> nat \<Rightarrow> nat \<Rightarrow> real list \<Rightarrow> real list list list" where
  "reshape3 B D L xs =
     map (\<lambda>b. map (\<lambda>d. map (\<lambda>t. if (b * D + d) * L + t < length xs
                                  then xs ! ((b * D + d) * L + t) else 0)
                       [0..<L]) [0..<D]) [0..<B]"

text \<open>
  The latent length of the specification for a list of durations: the number of chunks
  of \<open>base_chunk_size \<sqdot> chunk_compress_factor\<close> samples that cover the longest waveform.
\<close>

definition spec_latent_len :: "TtsConfig \<Rightarrow> real list \<Rightarrow> nat" where
  "spec_latent_len cfg duration =
     nat \<lfloor>of_int (\<lfloor>Max (set duration) * of_int (sample_rate cfg)\<rfloor>
                   + base_chunk_size cfg * chunk_compress_factor cfg - 1)
          / (of_int (base_chunk_size cfg * chunk_compress_factor cfg) :: real)\<rfloor>"

text \<open>
  The latents \<open>x\<^sub>0, x\<^sub>1, \<dots>\<close> of the specification for a run of \<open>infer\<close> on \<open>textList\<close>
  whose sampler returned \<open>maskCong\<close>: \<open>x\<^sub>0\<close> is the sampled latent, and \<open>x\<^sub>k\<^sub>+\<^sub>1\<close> is the
  output of the vector estimator, read as a latent of shape \<open>[B, D, L]\<close>, on the inputs
  \<open>noisy_latent = x\<^sub>k\<close> (as a tensor of dimensions \<open>[B, D, L]\<close>), the output of the text
  encoder, the \<open>ttl\<close> tensor of the style, the latent mask (dimensions \<open>[B, 1, L]\<close>),
  the text mask, \<open>current_step\<close> filled with \<open>k\<close> and \<open>total_step\<close> filled with
  \<open>totalStep\<close>, where \<open>B\<close> is the number of texts.
\<close>

primrec denoised_latent ::
  "TextToSpeech \<Rightarrow> jsstring list \<Rightarrow> Style \<Rightarrow> int \<Rightarrow> NoisyLatent \<Rightarrow> nat \<Rightarrow> nat \<Rightarrow> nat
   \<Rightarrow> real list list list" where
  "denoised_latent tts textList style totalStep maskCong D L 0 = nl_xt maskCong"
| "denoised_latent tts textList style totalStep maskCong D L (Suc k) =
     reshape3 (length textList) D L
       (vectorEstOrt tts
          \<lparr>data = concat (concat (denoised_latent tts textList style totalStep maskCong D L k)),
           dims = [int (length textList), int D, int L]\<rparr>
          (textEncOrt tts (text_ids_tensor tts textList) (ttl style) (text_mask_tensor tts textList))
          (ttl style)
          \<lparr>data = concat (concat (nl_latentMask maskCong)), dims = [int (length textList), 1, int L]\<rparr>
          (text_mask_tensor tts textList)
          \<lparr>data = replicate (length textList) (real k), dims = [int (length textList)]\<rparr>
          \<lparr>data = replicate (length textList) (of_int totalStep), dims = [int (length textList)]\<rparr>)"

text \<open>
  The runs of \<open>infer\<close> on the chunks of a text, one after the other, each reading the
  random stream from where the previous one stopped; the list ends with the first run
  that throws.
\<close>

fun infer_each ::
  "TextToSpeech \<Rightarrow> (nat \<Rightarrow> real) \<Rightarrow> Style \<Rightarrow> int \<Rightarrow> real \<Rightarrow> jsstring list \<Rightarrow> nat
   \<Rightarrow> (event list \<times> (js_error + InferResult)) list" where
  "infer_each tts rand style totalStep speed [] pos = []"
| "infer_each tts rand style totalStep speed (chunk # chunks) pos =
     (case infer tts rand pos [chunk] style totalStep speed of
        (evs, Inl e) \<Rightarrow> [(evs, Inl e)]
      | (evs, Inr r) \<Rightarrow> (evs, Inr r) # infer_each tts rand style totalStep speed chunks (out_pos r))"

text \<open>
  The code points of a string in storage order (the string iterator of ECMAScript): a
  leading surrogate followed by a trailing one is one code point, any other code unit
  is a code point of its own.
\<close>

fun code_points :: "jsstring \<Rightarrow> nat list" where
  "code_points [] = []"
| "code_points [c] = [unat c]"
| "code_points (c # c' # s) =
     (if is_leading_surrogate c \<and> is_trailing_surrogate c'
      then ((unat c - 0xD800) * 0x400 + (unat c' - 0xDC00) + 0x10000) # code_points s
      else unat c # code_points (c' # s))"

text \<open>
  The RIFF/WAVE header of the specification for \<open>n\<close> samples of 16-bit mono PCM, field
  by field, and the encoding of one sample.
\<close>

definition spec_wav_header :: "nat \<Rightarrow> int \<Rightarrow> bytes" where
  "spec_wav_header n sampleRate =
     [0x52, 0x49, 0x46, 0x46] @ le32 (word_of_int (36 + 2 * int n)) @ [0x57, 0x41, 0x56, 0x45]
     @ [0x66, 0x6D, 0x74, 0x20] @ le32 16 @ le16 1 @ le16 1
     @ le32 (word_of_int sampleRate) @ le32 (word_of_int (sampleRate * 1 * 16 div 8))
     @ le16 2 @ le16 16
     @ [0x64, 0x61, 0x74, 0x61] @ le32 (word_of_int (2 * int n))"

definition spec_pcm16 :: "real \<Rightarrow> bytes" where
  "spec_pcm16 x = le16 (word_of_int \<lfloor>max (- 1) (min 1 x) * 32767\<rfloor>)"

text \<open>A string contains a match of a regular expression.\<close>

definition contains_match :: "matcher \<Rightarrow> jsstring \<Rightarrow> bool" where
  "contains_match m s \<longleftrightarrow> list_ex (\<lambda>q. m s q \<noteq> None) [0..<length s]"

text \<open>Sentences joined by single spaces.\<close>

fun join_spaces :: "jsstring list \<Rightarrow> jsstring" where
  "join_spaces [] = []"
| "join_spaces [x] = x"
| "join_spaces (x # y # ys) = x @ js '' '' @ join_spaces (y # ys)"

section \<open>Concrete objects for closed instances\<close>

text \<open>
  A configuration with small numbers, sessions that return constants, and a style with
  one-element tensors. The duration predictor of \<open>demo_tts\<close> answers \<open>3/2\<close> seconds, the
  vector estimator answers the data of its \<open>noisy_latent\<close>, and the vocoder answers two
  samples.
\<close>

definition demo_cfgs :: TtsConfig where
  "demo_cfgs = \<lparr>sample_rate = 4, base_chunk_size = 2, chunk_compress_factor = 1, latent_dim = 1\<rparr>"

definition demo_emb :: "int Tensor \<Rightarrow> real Tensor \<Rightarrow> real Tensor \<Rightarrow> real Tensor" where
  "demo_emb text_ids sty text_mask = \<lparr>data = [], dims = [1, 0, 0]\<rparr>"

definition demo_dp :: "int Tensor \<Rightarrow> real Tensor \<Rightarrow> real Tensor \<Rightarrow> real list" where
  "demo_dp text_ids sty text_mask = [3 / 2]"

definition demo_est ::
  "real Tensor \<Rightarrow> real Tensor \<Rightarrow> real Tensor \<Rightarrow> real Tensor \<Rightarrow> real Tensor \<Rightarrow> real Tensor
   \<Rightarrow> real Tensor \<Rightarrow> real list" where
  "demo_est noisy emb sty lmask tmask cur tot = data noisy"

definition demo_vocoder :: "real Tensor \<Rightarrow> real list" where
  "demo_vocoder latent = [1 / 2, - 1 / 4]"

definition no_normalize :: "jsstring \<Rightarrow> jsstring" where
  "no_normalize s = s"

definition demo_tts :: TextToSpeech where
  "demo_tts = \<lparr>cfgs = demo_cfgs, textProcessor = [], normalizeNFKC = no_normalize,
                dpOrt = demo_dp, textEncOrt = demo_emb, vectorEstOrt = demo_est,
                vocoderOrt = demo_vocoder\<rparr>"

definition demo_style :: Style where
  "demo_style = \<lparr>ttl = \<lparr>data = [0], dims = [1, 1, 1]\<rparr>, dp = \<lparr>data = [0], dims = [1, 1, 1]\<rparr>\<rparr>"

definition demo_voice_json :: VoiceStyleJson where
  "demo_voice_json =
     \<lparr>style_ttl = \<lparr>json_dims = (1, 1, 1), json_data = [[[0]]]\<rparr>,
      style_dp = \<lparr>json_dims = (1, 1, 1), json_data = [[[0]]]\<rparr>\<rparr>"

definition demo_assets :: "VoiceStyleId \<Rightarrow> VoiceStyleJson" where
  "demo_assets v = demo_voice_json"

text \<open>
  A second object: its duration predictor answers one second less than the number of
  token ids, and its vocoder answers one sample per cell of the latent. A chunk of one
  character then has duration \<open>0\<close>, an empty latent and an empty waveform.
\<close>

definition len_dp :: "int Tensor \<Rightarrow> real Tensor \<Rightarrow> real Tensor \<Rightarrow> real list" where
  "len_dp text_ids sty text_mask = [real (length (data text_ids)) - 1]"

definition cells_vocoder :: "real Tensor \<Rightarrow> real list" where
  "cells_vocoder latent = map (\<lambda>x. 1 / 2) (data latent)"

text \<open>
  Two texts of two paragraphs each: \<open>a\<close>, two line feeds, \<open>b\<close>; and \<open>a\<close>, two line
  feeds, \<open>bcd\<close>.
\<close>

definition text_a_b :: jsstring where
  "text_a_b = js ''a'' @ [0x0A, 0x0A] @ js ''b''"

definition text_a_bcd :: jsstring where
  "text_a_bcd = js ''a'' @ [0x0A, 0x0A] @ js ''bcd''"

definition short_tts :: TextToSpeech where
  "short_tts = \<lparr>cfgs = demo_cfgs, textProcessor = [], normalizeNFKC = no_normalize,
                 dpOrt = len_dp, textEncOrt = demo_emb, vectorEstOrt = demo_est,
                 vocoderOrt = cells_vocoder\<rparr>"

text \<open>
  A third object: its vector estimator adds \<open>1\<close> and the value of \<open>current_step\<close> to
  every cell of its \<open>noisy_latent\<close>, and its vocoder answers the data of the latent.
\<close>

definition step_est ::
  "real Tensor \<Rightarrow> real Tensor \<Rightarrow> real Tensor \<Rightarrow> real Tensor \<Rightarrow> real Tensor \<Rightarrow> real Tensor
   \<Rightarrow> real Tensor \<Rightarrow> real list" where
  "step_est noisy emb sty lmask tmask cur tot = map (\<lambda>x. x + 1 + sum_list (data cur)) (data noisy)"

definition echo_vocoder :: "real Tensor \<Rightarrow> real list" where
  "echo_vocoder latent = data latent"

definition step_tts :: TextToSpeech where
  "step_tts = \<lparr>cfgs = demo_cfgs, textProcessor = [], normalizeNFKC = no_normalize,
                dpOrt = demo_dp, textEncOrt = demo_emb, vectorEstOrt = step_est,
                vocoderOrt = echo_vocoder\<rparr>"

text \<open>
  Two voice style documents whose \<open>style_ttl.dims\<close> is \<open>[2, 1, 1]\<close>: the first holds the
  numbers of both styles, the second only one number.
\<close>

definition two_style_voice_json :: VoiceStyleJson where
  "two_style_voice_json =
     \<lparr>style_ttl = \<lparr>json_dims = (2, 1, 1), json_data = [[[0]], [[0]]]\<rparr>,
      style_dp = \<lparr>json_dims = (1, 1, 1), json_data = [[[0]]]\<rparr>\<rparr>"

definition two_style_assets :: "VoiceStyleId \<Rightarrow> VoiceStyleJson" where
  "two_style_assets v = two_style_voice_json"

definition two_dims_voice_json :: VoiceStyleJson where
  "two_dims_voice_json =
     \<lparr>style_ttl = \<lparr>json_dims = (2, 1, 1), json_data = [[[0]]]\<rparr>,
      style_dp = \<lparr>json_dims = (1, 1, 1), json_data = [[[0]]]\<rparr>\<rparr>"

definition two_dims_assets :: "VoiceStyleId \<Rightarrow> VoiceStyleJson" where
  "two_dims_assets v = two_dims_voice_json"

section \<open>The latent mask\<close>

lemma fold_update_ones:
  "n \<le> length r \<Longrightarrow>
   fold (\<lambda>j r. r[j := (1::real)]) [0..<n] r = replicate n 1 @ drop n r"
proof (induction n)
  case 0
  then show ?case by simp
next
  case (Suc n)
  then have "fold (\<lambda>j r. r[j := (1::real)]) [0..<Suc n] r
             = (replicate n 1 @ drop n r)[n := 1]"
    by simp
  also have "\<dots> = replicate n 1 @ (drop n r)[0 := 1]"
    by (simp add: list_update_append)
  also have "(drop n r)[0 := 1] = 1 # drop (Suc n) r"
    using Suc.prems by (simp add: Cons_nth_drop_Suc [symmetric])
  finally show ?case
    by (simp add: replicate_append_same)
qed

lemma mask_row_eq:
  "mask_row len m =
     replicate (nat (min len m)) 1 @ replicate (nat m - nat (min len m)) 0"
proof -
  have "nat (min len m) \<le> length (replicate (nat m) (0::real))"
    by simp
  then show ?thesis
    unfolding mask_row_def Let_def
    by (simp only: fold_update_ones) simp
qed

text \<open>
  C1 (amended). The source computes the number of ones of a row with \<open>Math.floor\<close>, not
  with a ceiling. For a positive chunk size, a non-negative sample rate and
  non-negative durations, the latent sampler returns, and row \<open>i\<close> of its mask consists
  of exactly \<open>\<lfloor>(\<lfloor>duration\<^sub>i \<sqdot> sample_rate\<rfloor> + chunk_size - 1) / chunk_size\<rfloor>\<close> ones followed only
  by zeros, up to the latent length (the same expression for the largest duration),
  where \<open>chunk_size = base_chunk_size \<sqdot> chunk_compress_factor\<close>.
\<close>

theorem latent_mask_rows:
  assumes c: "0 < baseChunkSize * chunkCompress"
      and sr: "0 \<le> sampleRate"
      and d: "\<forall>d\<in>set duration. 0 \<le> d"
  shows "map_sum id nl_latentMask
           (sampleNoisyLatent rand pos duration sampleRate baseChunkSize chunkCompress latentDim)
         = Inr (map (\<lambda>d. [replicate (nat \<lfloor>of_int (\<lfloor>d * of_int sampleRate\<rfloor> + baseChunkSize * chunkCompress - 1) / (of_int (baseChunkSize * chunkCompress) :: real)\<rfloor>) 1
                          @ replicate (nat \<lfloor>of_int (\<lfloor>Max (set duration) * of_int sampleRate\<rfloor> + baseChunkSize * chunkCompress - 1) / (of_int (baseChunkSize * chunkCompress) :: real)\<rfloor>
                                       - nat \<lfloor>of_int (\<lfloor>d * of_int sampleRate\<rfloor> + baseChunkSize * chunkCompress - 1) / (of_int (baseChunkSize * chunkCompress) :: real)\<rfloor>) 0])
                    duration)"
proof (cases "duration = []")
  case True
  then show ?thesis by (simp add: sampleNoisyLatent_def)
next
  case False
  define c where "c = baseChunkSize * chunkCompress"
  define W where "W = \<lfloor>Max (set duration) * of_int sampleRate\<rfloor>"
  define L where "L = \<lfloor>of_int (W + c - 1) / (of_int c :: real)\<rfloor>"
  have cpos: "0 < c" using c by (simp add: c_def)
  have Ldiv: "L = (W + c - 1) div c" unfolding L_def by (rule floor_divide_of_int_eq)
  have mono: "\<lfloor>of_int (\<lfloor>x * of_int sampleRate\<rfloor> + c - 1) / (of_int c :: real)\<rfloor> \<le> L" 
     and nonneg: "0 \<le> \<lfloor>of_int (\<lfloor>x * of_int sampleRate\<rfloor> + c - 1) / (of_int c :: real)\<rfloor>" if "x \<in> set duration" for x
  proof -
    have "x \<le> Max (set duration)" using that by simp
    then have "x * of_int sampleRate \<le> Max (set duration) * of_int sampleRate"
      using sr by (simp add: mult_right_mono)
    then have "\<lfloor>x * of_int sampleRate\<rfloor> \<le> W" unfolding W_def by (rule floor_mono)
    then have "(\<lfloor>x * of_int sampleRate\<rfloor> + c - 1) div c \<le> (W + c - 1) div c"
      using cpos by (intro zdiv_mono1) auto
    then show "\<lfloor>of_int (\<lfloor>x * of_int sampleRate\<rfloor> + c - 1) / (of_int c :: real)\<rfloor> \<le> L"
      by (simp only: floor_divide_of_int_eq Ldiv)
    have "0 \<le> x" using d that by blast
    then have "0 \<le> x * of_int sampleRate" using sr by simp
    then have "0 \<le> \<lfloor>x * of_int sampleRate\<rfloor>" by simp
    then have "0 \<le> \<lfloor>x * of_int sampleRate\<rfloor> + c - 1" using cpos by linarith
    then have "0 \<le> (\<lfloor>x * of_int sampleRate\<rfloor> + c - 1) div c"
      using cpos by (simp only: pos_imp_zdiv_nonneg_iff)
    then show "0 \<le> \<lfloor>of_int (\<lfloor>x * of_int sampleRate\<rfloor> + c - 1) / (of_int c :: real)\<rfloor>"
      by (simp only: floor_divide_of_int_eq)
  qed
  have Lnonneg: "0 \<le> L"
  proof -
    obtain x where x: "x \<in> set duration" using False by (cases duration) auto
    from nonneg[OF x] mono[OF x] show ?thesis by linarith
  qed
  have rows: "map (\<lambda>len. [mask_row len L]) (map (\<lambda>len. \<lfloor>of_int (len + c - 1) / (of_int c :: real)\<rfloor>) (map (\<lambda>d. \<lfloor>d * of_int sampleRate\<rfloor>) duration))
        = map (\<lambda>d. [replicate (nat \<lfloor>of_int (\<lfloor>d * of_int sampleRate\<rfloor> + c - 1) / (of_int c :: real)\<rfloor>) 1
                          @ replicate (nat L - nat \<lfloor>of_int (\<lfloor>d * of_int sampleRate\<rfloor> + c - 1) / (of_int c :: real)\<rfloor>) 0]) duration"
    using mono by (simp add: mask_row_eq min_absorb1)
  show ?thesis
    using False cpos Lnonneg rows
    unfolding sampleNoisyLatent_def TextToSpeech_lengthToMask_def Let_def c_def[symmetric] W_def[symmetric] L_def[symmetric]
    by simp
qed

text \<open>An instance: durations \<open>3/2\<close> and \<open>2\<close> seconds at 4 samples per second, chunk size 2.\<close>

theorem latent_mask_rows_witness:
  "map_sum id nl_latentMask (sampleNoisyLatent quarter_rand 0 [3/2, 2] 4 2 1 1)
     = Inr [[[1, 1, 1, 0]], [[1, 1, 1, 1]]]"
  using latent_mask_rows [of 2 1 4 "[3/2, 2]" quarter_rand 0 1]
  by (simp add: numeral_eq_Suc)

text \<open>
  C1 as stated fails: for one duration of 2 seconds at 1 sample per second and chunk
  size 2 the row is \<open>[1]\<close>, one 1, while \<open>\<lceil>(2 + 2 - 1) / 2\<rceil> = 2\<close>.
\<close>

theorem latent_mask_ceiling_counterexample:
  "map_sum id nl_latentMask (sampleNoisyLatent quarter_rand 0 [2] 1 2 1 1) = Inr [[[1]]]
   \<and> count_list [1::real] 1 \<noteq> nat \<lceil>of_int (\<lfloor>(2::real) * of_int 1\<rfloor> + 2 * 1 - 1) / (of_int (2 * 1) :: real)\<rceil>"
  by (simp add: sampleNoisyLatent_def TextToSpeech_lengthToMask_def mask_row_def)

section \<open>The denoising loop\<close>

lemma reshape3_shape: "has_shape (reshape3 B D L xs) B D L"
  by (simp add: has_shape_def reshape3_def list_all_length)

lemma shape_lens:
  assumes "has_shape x B D L" and "0 < B" and "0 < D"
  shows "len0 x = D" and "len00 x = L"
proof -
  from assms obtain b bs where x: "x = b # bs" by (cases x) (auto simp: has_shape_def)
  with assms obtain r rs where b: "b = r # rs" by (cases b) (auto simp: has_shape_def)
  from assms x show "len0 x = D" by (simp add: has_shape_def len0_def)
  from assms x b show "len00 x = L" by (simp add: has_shape_def len00_def)
qed

lemma xt_tensor_shaped:
  "has_shape x B D L \<Longrightarrow> 0 < B \<Longrightarrow> 0 < D \<Longrightarrow>
   xt_tensor B x = \<lparr>data = concat (concat x), dims = [int B, int D, int L]\<rparr>"
  by (simp add: xt_tensor_def shape_lens)

lemma next_xt_shaped:
  "has_shape x B D L \<Longrightarrow> 0 < B \<Longrightarrow> 0 < D \<Longrightarrow> next_xt B x dd = reshape3 B D L dd"
  by (simp add: next_xt_def reshape3_def shape_lens Let_def)

lemma length_mask_row: "length (mask_row len m) = nat m"
  by (simp add: mask_row_eq)

lemma sampler_shape:
  assumes "initial_latent tts rand pos duration = Inr nl" and "duration \<noteq> []"
  shows "has_shape (nl_xt nl) (length duration)
           (nat (latent_dim (cfgs tts) * chunk_compress_factor (cfgs tts)))
           (spec_latent_len (cfgs tts) duration)"
    and "len00 (nl_latentMask nl) = spec_latent_len (cfgs tts) duration"
  using assms
  by (auto simp: initial_latent_def sampleNoisyLatent_def TextToSpeech_lengthToMask_def Let_def
      has_shape_def list_all_length spec_latent_len_def len00_def length_mask_row
      split: if_splits sum.splits list.splits)

lemma denoise_loop_run:
  "denoise_loop tts bsz emb style lmt tmt tst (int i + int n) (int i)
       (latent_after tts bsz emb style lmt tmt tst xt0 i) trace
   = (latent_after tts bsz emb style lmt tmt tst xt0 (i + n),
      trace @ map (\<lambda>k. VectorEstimatorRun (xt_tensor bsz (latent_after tts bsz emb style lmt tmt tst xt0 k))
                          (step_tensor bsz (int k)) tst) [i..<i + n])"
proof (induction n arbitrary: i trace)
  case 0
  show ?case by (subst denoise_loop.simps) simp
next
  case (Suc n)
  let ?ev = "\<lambda>k. VectorEstimatorRun (xt_tensor bsz (latent_after tts bsz emb style lmt tmt tst xt0 k))
                          (step_tensor bsz (int k)) tst"
  have lt: "int i < int (Suc i) + int n" by simp
  have eq1: "int i + int (Suc n) = int (Suc i) + int n" by simp
  have eq2: "int i + 1 = int (Suc i)" by simp
  have "denoise_loop tts bsz emb style lmt tmt tst (int i + int (Suc n)) (int i)
          (latent_after tts bsz emb style lmt tmt tst xt0 i) trace
        = denoise_loop tts bsz emb style lmt tmt tst (int (Suc i) + int n) (int (Suc i))
            (latent_after tts bsz emb style lmt tmt tst xt0 (Suc i))
            (trace @ [?ev i])"
    by (subst denoise_loop.simps) (simp only: lt if_True eq1 eq2 latent_after.simps)
  also have "\<dots> = (latent_after tts bsz emb style lmt tmt tst xt0 (Suc i + n),
                    (trace @ [?ev i]) @ map ?ev [Suc i..<Suc i + n])"
    by (rule Suc.IH)
  also have "(trace @ [?ev i]) @ map ?ev [Suc i..<Suc i + n] = trace @ map ?ev [i..<i + Suc n]"
  proof -
    have u: "[i..<i + Suc n] = i # [Suc i..<Suc i + n]"
      by (simp add: upt_conv_Cons del: upt_Suc)
    show ?thesis unfolding u by (simp del: upt_Suc)
  qed
  finally show ?case by simp
qed

lemma denoise_loop_none:
  "totalStep \<le> step \<Longrightarrow>
   denoise_loop tts bsz emb style lmt tmt tst totalStep step x trace = (x, trace)"
  by (subst denoise_loop.simps) simp

lemma latent_after_denoised:
  assumes sh: "has_shape (nl_xt maskCong) (length textList) D L"
      and B: "textList \<noteq> []" and D: "0 < D"
  shows "latent_after tts (length textList)
           (textEncOrt tts (text_ids_tensor tts textList) (ttl style) (text_mask_tensor tts textList))
           style
           \<lparr>data = concat (concat (nl_latentMask maskCong)), dims = [int (length textList), 1, int L]\<rparr>
           (text_mask_tensor tts textList)
           \<lparr>data = replicate (length textList) (of_int totalStep), dims = [int (length textList)]\<rparr>
           (nl_xt maskCong) k
         = denoised_latent tts textList style totalStep maskCong D L k
         \<and> has_shape (denoised_latent tts textList style totalStep maskCong D L k) (length textList) D L"
proof (induction k)
  case 0
  show ?case using sh by simp
next
  case (Suc k)
  have Bpos: "0 < length textList" using B by simp
  from Suc have eq: "latent_after tts (length textList)
           (textEncOrt tts (text_ids_tensor tts textList) (ttl style) (text_mask_tensor tts textList))
           style
           \<lparr>data = concat (concat (nl_latentMask maskCong)), dims = [int (length textList), 1, int L]\<rparr>
           (text_mask_tensor tts textList)
           \<lparr>data = replicate (length textList) (of_int totalStep), dims = [int (length textList)]\<rparr>
           (nl_xt maskCong) k
         = denoised_latent tts textList style totalStep maskCong D L k"
    and shk: "has_shape (denoised_latent tts textList style totalStep maskCong D L k) (length textList) D L"
    by simp_all
  show ?case
    by (simp only: latent_after.simps denoised_latent.simps eq denoise_step_def Let_def
        xt_tensor_shaped [OF shk Bpos D] next_xt_shaped [OF shk Bpos D] step_tensor_def
        reshape3_shape of_int_of_nat_eq simp_thms)
qed

text \<open>
  C6. For every \<open>totalStep \<ge> 1\<close>, in a run of \<open>infer\<close> on a non-empty batch of \<open>B\<close> texts
  for which the duration predictor answers \<open>B\<close> durations, with a positive latent
  dimension \<open>D = latent_dim \<sqdot> chunk_compress_factor\<close> and a sampler that returns: after
  the duration predictor and the text encoder, \<open>infer\<close> calls the vector estimator
  exactly \<open>totalStep\<close> times, the \<open>k\<close>-th call (counted from zero) with \<open>current_step\<close>
  filled with \<open>k\<close>, \<open>total_step\<close> filled with \<open>totalStep\<close> and the latent \<open>x\<^sub>k\<close> as
  \<open>noisy_latent\<close>, where \<open>x\<^sub>0\<close> is the sampled latent and \<open>x\<^sub>k\<^sub>+\<^sub>1\<close> is the output of the
  \<open>k\<close>-th call; the vocoder then runs on \<open>x\<close> after \<open>totalStep\<close> calls. Every \<open>x\<^sub>k\<close>,
  the sampled one included, has the shape \<open>[B, D, L]\<close> with \<open>L\<close> the latent length. In
  particular \<open>totalStep = 1\<close> gives exactly one call, with \<open>current_step = 0\<close>, on the
  sampled latent.
\<close>

theorem denoising_steps:
  assumes steps: "1 \<le> totalStep"
      and speed: "speed \<noteq> 0"
      and batch: "textList \<noteq> []"
      and dp: "length (dp_data tts textList style) = length textList"
      and dim: "0 < latent_dim (cfgs tts) * chunk_compress_factor (cfgs tts)"
      and latent: "initial_latent tts rand pos (map (\<lambda>d. d / speed) (dp_data tts textList style))
                   = Inr maskCong"
      and D: "D = nat (latent_dim (cfgs tts) * chunk_compress_factor (cfgs tts))"
      and L: "L = spec_latent_len (cfgs tts) (map (\<lambda>d. d / speed) (dp_data tts textList style))"
  shows "infer tts rand pos textList style totalStep speed
         = (infer_prelude tts textList style
              @ map (\<lambda>k. VectorEstimatorRun
                            \<lparr>data = concat (concat (denoised_latent tts textList style totalStep maskCong D L k)),
                             dims = [int (length textList), int D, int L]\<rparr>
                            \<lparr>data = replicate (length textList) (real k), dims = [int (length textList)]\<rparr>
                            \<lparr>data = replicate (length textList) (of_int totalStep),
                             dims = [int (length textList)]\<rparr>)
                    [0..<nat totalStep]
              @ [VocoderRun
                   \<lparr>data = concat (concat (denoised_latent tts textList style totalStep maskCong D L (nat totalStep))),
                    dims = [int (length textList), int D, int L]\<rparr>],
            Inr \<lparr>out_wav = vocoderOrt tts
                   \<lparr>data = concat (concat (denoised_latent tts textList style totalStep maskCong D L (nat totalStep))),
                    dims = [int (length textList), int D, int L]\<rparr>,
                 out_duration = map (\<lambda>d. d / speed) (dp_data tts textList style),
                 out_pos = nl_pos maskCong\<rparr>)
       \<and> map current_step (filter is_VectorEstimatorRun (fst (infer tts rand pos textList style totalStep speed)))
         = map (\<lambda>k. \<lparr>data = replicate (length textList) (real k), dims = [int (length textList)]\<rparr>)
             [0..<nat totalStep]
       \<and> list_all (\<lambda>k. has_shape (denoised_latent tts textList style totalStep maskCong D L k)
                          (length textList) D L)
           [0..<Suc (nat totalStep)]
       \<and> (totalStep = 1 \<longrightarrow>
            filter is_VectorEstimatorRun (fst (infer tts rand pos textList style totalStep speed))
            = [VectorEstimatorRun
                 \<lparr>data = concat (concat (nl_xt maskCong)), dims = [int (length textList), int D, int L]\<rparr>
                 \<lparr>data = replicate (length textList) 0, dims = [int (length textList)]\<rparr>
                 \<lparr>data = replicate (length textList) 1, dims = [int (length textList)]\<rparr>])"
proof -
  let ?B = "length textList"
  let ?dur = "map (\<lambda>d. d / speed) (dp_data tts textList style)"
  let ?x = "denoised_latent tts textList style totalStep maskCong D L"
  let ?emb = "textEncOrt tts (text_ids_tensor tts textList) (ttl style) (text_mask_tensor tts textList)"
  let ?lmt = "\<lparr>data = concat (concat (nl_latentMask maskCong)), dims = [int ?B, 1, int L]\<rparr>"
  let ?tst = "\<lparr>data = replicate ?B (of_int totalStep :: real), dims = [int ?B]\<rparr>"
  let ?ev = "\<lambda>k. VectorEstimatorRun \<lparr>data = concat (concat (?x k)), dims = [int ?B, int D, int L]\<rparr>
                     \<lparr>data = replicate ?B (real k), dims = [int ?B]\<rparr> ?tst"
  let ?final = "\<lparr>data = concat (concat (?x (nat totalStep))), dims = [int ?B, int D, int L]\<rparr>"
  have Bpos: "0 < ?B" using batch by simp
  have Dpos: "0 < D" using dim D by simp
  have ne: "?dur \<noteq> []" using dp batch by auto
  have len: "length ?dur = ?B" using dp by simp
  have sh0: "has_shape (nl_xt maskCong) ?B D L"
    using sampler_shape(1) [OF latent ne] by (simp only: len D L)
  have lm: "latent_mask_tensor ?B (nl_latentMask maskCong) = ?lmt"
    using sampler_shape(2) [OF latent ne] by (simp add: latent_mask_tensor_def L)
  note la = latent_after_denoised [OF sh0 batch Dpos, of tts style totalStep]
  have shapes: "has_shape (?x k) ?B D L" for k using la [of k] by simp
  have xs: "xt_tensor ?B (?x k) = \<lparr>data = concat (concat (?x k)), dims = [int ?B, int D, int L]\<rparr>" for k
    by (rule xt_tensor_shaped [OF shapes Bpos Dpos])
  have evs: "VectorEstimatorRun (xt_tensor ?B (latent_after tts ?B ?emb style ?lmt (text_mask_tensor tts textList) ?tst (nl_xt maskCong) k))
                 (step_tensor ?B (int k)) ?tst = ?ev k" for k
    using la [of k] by (simp add: xs step_tensor_def)
  have n: "int 0 + int (nat totalStep) = totalStep" using steps by simp
  have loop: "run_denoise tts textList style totalStep maskCong (infer_prelude tts textList style)
              = (?x (nat totalStep), infer_prelude tts textList style @ map ?ev [0..<nat totalStep])"
    using denoise_loop_run [of tts ?B ?emb style ?lmt "text_mask_tensor tts textList" ?tst 0
        "nat totalStep" "nl_xt maskCong" "infer_prelude tts textList style"]
    by (simp only: n run_denoise_def Let_def lm step_tensor_def) (simp add: la xs)
  have inf: "infer tts rand pos textList style totalStep speed
         = (infer_prelude tts textList style @ map ?ev [0..<nat totalStep] @ [VocoderRun ?final],
            Inr \<lparr>out_wav = vocoderOrt tts ?final, out_duration = ?dur, out_pos = nl_pos maskCong\<rparr>)"
    using speed by (simp add: infer_def Let_def latent loop xs)
  have flt: "filter is_VectorEstimatorRun (fst (infer tts rand pos textList style totalStep speed))
             = map ?ev [0..<nat totalStep]"
    by (simp add: inf infer_prelude_def filter_map comp_def)
  have steps_list: "map current_step (filter is_VectorEstimatorRun (fst (infer tts rand pos textList style totalStep speed)))
         = map (\<lambda>k. \<lparr>data = replicate ?B (real k), dims = [int ?B]\<rparr>) [0..<nat totalStep]"
    by (simp add: flt comp_def)
  have all: "list_all (\<lambda>k. has_shape (?x k) ?B D L) [0..<Suc (nat totalStep)]"
    by (simp only: list_all_iff) (blast intro: shapes)
  have one: "filter is_VectorEstimatorRun (fst (infer tts rand pos textList style totalStep speed))
            = [VectorEstimatorRun
                 \<lparr>data = concat (concat (nl_xt maskCong)), dims = [int ?B, int D, int L]\<rparr>
                 \<lparr>data = replicate ?B 0, dims = [int ?B]\<rparr>
                 \<lparr>data = replicate ?B 1, dims = [int ?B]\<rparr>]" if "totalStep = 1"
    unfolding flt using that by simp
  from inf steps_list all one show ?thesis by blast
qed

lemma step_ids: "text_ids_tensor step_tts [js ''Hi''] = \<lparr>data = [- 1, - 1], dims = [1, 2]\<rparr>"
  by (simp add: text_ids_tensor_def step_tts_def UnicodeProcessor_call_def no_normalize_def js_def
      Math_max_def index_row_def codePointAt_def len0_def Let_def upt_rec is_leading_surrogate_def
      getTextMask_def)

lemma step_mask: "text_mask_tensor step_tts [js ''Hi''] = \<lparr>data = [1, 1], dims = [1, 1, 2]\<rparr>"
  by (simp add: text_mask_tensor_def step_tts_def UnicodeProcessor_call_def no_normalize_def js_def
      Math_max_def len00_def Let_def upt_rec getTextMask_def UnicodeProcessor_lengthToMask_def)

lemma step_dp_data: "dp_data step_tts textList demo_style = [3 / 2]"
  by (simp add: dp_data_def step_tts_def demo_dp_def)

lemma step_latent:
  "initial_latent step_tts quarter_rand 0 [3 / 2]
   = Inr \<lparr>nl_xt = [[[0, 0, 0]]], nl_latentMask = [[[1, 1, 1]]], nl_pos = 6\<rparr>"
  by (simp add: initial_latent_def step_tts_def demo_cfgs_def sampleNoisyLatent_def
      TextToSpeech_lengthToMask_def mask_row_def box_muller_def quarter_rand_def Let_def upt_rec
      numeral_eq_Suc)

lemma step_cfgs: "cfgs step_tts = demo_cfgs"
  by (simp add: step_tts_def)

lemma step_est_run: "vectorEstOrt step_tts n e s l t c u = map (\<lambda>x. x + 1 + sum_list (data c)) (data n)"
  by (simp add: step_tts_def step_est_def)

lemma step_voc: "vocoderOrt step_tts latent = data latent"
  by (simp add: step_tts_def echo_vocoder_def)

lemma step_latent_len: "spec_latent_len demo_cfgs [3 / 2] = 3"
  by (simp add: spec_latent_len_def demo_cfgs_def)

text \<open>
  An instance with two steps on the text \<open>Hi\<close>: the sampled latent \<open>[0, 0, 0]\<close> becomes
  \<open>[1, 1, 1]\<close> after the call with \<open>current_step = 0\<close> and \<open>[3, 3, 3]\<close> after the call with
  \<open>current_step = 1\<close>.
\<close>

theorem denoising_steps_witness:
  "infer step_tts quarter_rand 0 [js ''Hi''] demo_style 2 1
   = ([DurationPredictorRun \<lparr>data = [- 1, - 1], dims = [1, 2]\<rparr> (dp demo_style)
         \<lparr>data = [1, 1], dims = [1, 1, 2]\<rparr>,
       TextEncoderRun \<lparr>data = [- 1, - 1], dims = [1, 2]\<rparr> (ttl demo_style)
         \<lparr>data = [1, 1], dims = [1, 1, 2]\<rparr>,
       VectorEstimatorRun \<lparr>data = [0, 0, 0], dims = [1, 1, 3]\<rparr> \<lparr>data = [0], dims = [1]\<rparr>
         \<lparr>data = [2], dims = [1]\<rparr>,
       VectorEstimatorRun \<lparr>data = [1, 1, 1], dims = [1, 1, 3]\<rparr> \<lparr>data = [1], dims = [1]\<rparr>
         \<lparr>data = [2], dims = [1]\<rparr>,
       VocoderRun \<lparr>data = [3, 3, 3], dims = [1, 1, 3]\<rparr>],
      Inr \<lparr>out_wav = [3, 3, 3], out_duration = [3 / 2], out_pos = 6\<rparr>)"
proof -
  let ?nl = "\<lparr>nl_xt = [[[0, 0, 0]]], nl_latentMask = [[[1, 1, 1]]], nl_pos = 6\<rparr>"
  have steps: "(1::int) \<le> 2" and speed: "(1::real) \<noteq> 0" and batch: "[js ''Hi''] \<noteq> []"
    by simp_all
  have dp: "length (dp_data step_tts [js ''Hi''] demo_style) = length [js ''Hi'']"
    by (simp add: step_dp_data)
  have dim: "0 < latent_dim (cfgs step_tts) * chunk_compress_factor (cfgs step_tts)"
    by (simp add: step_cfgs demo_cfgs_def)
  have latent: "initial_latent step_tts quarter_rand 0
                  (map (\<lambda>d. d / 1) (dp_data step_tts [js ''Hi''] demo_style)) = Inr ?nl"
    by (simp add: step_dp_data step_latent)
  have D: "1 = nat (latent_dim (cfgs step_tts) * chunk_compress_factor (cfgs step_tts))"
    by (simp add: step_cfgs demo_cfgs_def)
  have L: "3 = spec_latent_len (cfgs step_tts) (map (\<lambda>d. d / 1) (dp_data step_tts [js ''Hi''] demo_style))"
    by (simp add: step_dp_data step_cfgs step_latent_len)
  have x1: "denoised_latent step_tts [js ''Hi''] demo_style 2 ?nl 1 3 (Suc 0) = [[[1, 1, 1]]]"
    by (simp add: step_est_run reshape3_def upt_rec)
  have x2: "denoised_latent step_tts [js ''Hi''] demo_style 2 ?nl 1 3 (Suc (Suc 0)) = [[[3, 3, 3]]]"
    by (simp only: denoised_latent.simps(2) [of _ _ _ _ _ _ _ "Suc 0"] x1)
       (simp add: step_est_run reshape3_def upt_rec)
  show ?thesis
    using denoising_steps [OF steps speed batch dp dim latent D L] x1 x2
    by (simp add: infer_prelude_def step_ids step_mask step_dp_data step_voc numeral_2_eq_2 upt_rec)
qed

section \<open>The guard of \<open>call\<close>\<close>

text \<open>
  When the first dimension of the \<open>ttl\<close> tensor of the style is not \<open>1\<close>, or the tensor
  has no dimension, \<open>TextToSpeech.call\<close> fails with the single-style error before any
  session call. A style that \<open>loadVoiceStyle\<close> has built always has first dimension
  \<open>1\<close>, whatever the document says.
\<close>

lemma call_rejects_first_dim:
  "dims (ttl style) = d0 # ds \<Longrightarrow> d0 \<noteq> 1 \<Longrightarrow>
   call tts rand pos text style totalStep speed silenceDuration = ([], Inl SingleStyleError)"
  by (simp add: call_def)

lemma call_rejects_empty_dims:
  "dims (ttl style) = [] \<Longrightarrow>
   call tts rand pos text style totalStep speed silenceDuration = ([], Inl SingleStyleError)"
  by (simp add: call_def)

lemma loadVoiceStyle_first_dim:
  "loadVoiceStyle j = Inr style \<Longrightarrow> \<exists>ds. dims (ttl style) = 1 # ds"
  by (auto simp: loadVoiceStyle_def Let_def split: sum.splits)

section \<open>The WAV encoder\<close>

lemma length_le [simp]: "length (le16 w) = 2" "length (le32 v) = 4"
  by (simp_all add: le16_def le32_def)

lemma set_bytes_next:
  "length done = off \<Longrightarrow> length v \<le> length rest \<Longrightarrow>
   set_bytes off v (done @ rest) = Inr (done @ v @ drop (length v) rest)"
  by (simp add: set_bytes_def)

lemma writeString_next:
  "length done = off \<Longrightarrow> length s \<le> length rest \<Longrightarrow>
   writeString off s (done @ rest)
   = Inr (done @ map ucast s @ drop (length s) rest)"
  unfolding writeString_def
proof (induction s arbitrary: off "done" rest)
  case Nil
  then show ?case by simp
next
  case (Cons c cs)
  obtain r rs where rest: "rest = r # rs" using Cons.prems(2) by (cases rest) auto
  have split: "map (\<lambda>i. setUint8 (off + i) (uint ((c # cs) ! i))) [0..<length (c # cs)]
        = setUint8 off (uint c) # map (\<lambda>i. setUint8 (Suc off + i) (uint (cs ! i))) [0..<length cs]"
    by (simp add: map_upt_Suc del: upt_Suc)
  have first: "setUint8 off (uint c) (done @ rest) = Inr ((done @ [ucast c]) @ rs)"
    using Cons.prems(1) by (simp add: setUint8_def set_bytes_def rest)
  have "run_writes (map (\<lambda>i. setUint8 (Suc off + i) (uint (cs ! i))) [0..<length cs])
          ((done @ [ucast c]) @ rs)
        = Inr ((done @ [ucast c]) @ map ucast cs @ drop (length cs) rs)"
    using Cons.prems by (intro Cons.IH) (simp_all add: rest)
  then show ?case
    by (simp only: split run_writes.simps first sum.case) (simp add: rest)
qed

lemma run_writes_append:
  "run_writes (ws @ ws') buffer
   = (case run_writes ws buffer of Inl e \<Rightarrow> Inl e | Inr b \<Rightarrow> run_writes ws' b)"
  by (induction ws arbitrary: buffer) (simp_all split: sum.splits)

lemma samples_written:
  "length done = off \<Longrightarrow> 2 * length a \<le> length rest \<Longrightarrow>
   run_writes (map (\<lambda>i. setInt16 (off + i * 2) (g (a ! i))) [0..<length a]) (done @ rest)
   = Inr (done @ concat (map (\<lambda>x. le16 (word_of_int (g x))) a) @ drop (2 * length a) rest)"
proof (induction a arbitrary: off "done" rest)
  case Nil
  then show ?case by simp
next
  case (Cons x xs)
  have split: "map (\<lambda>i. setInt16 (off + i * 2) (g ((x # xs) ! i))) [0..<length (x # xs)]
        = setInt16 off (g x) # map (\<lambda>i. setInt16 (off + 2 + i * 2) (g (xs ! i))) [0..<length xs]"
    by (simp add: map_upt_Suc del: upt_Suc)
  have first: "setInt16 off (g x) (done @ rest)
        = Inr ((done @ le16 (word_of_int (g x))) @ drop 2 rest)"
    using Cons.prems by (simp add: setInt16_def set_bytes_next)
  have "run_writes (map (\<lambda>i. setInt16 (off + 2 + i * 2) (g (xs ! i))) [0..<length xs])
          ((done @ le16 (word_of_int (g x))) @ drop 2 rest)
        = Inr ((done @ le16 (word_of_int (g x))) @ concat (map (\<lambda>x. le16 (word_of_int (g x))) xs)
               @ drop (2 * length xs) (drop 2 rest))"
    using Cons.prems by (intro Cons.IH) simp_all
  then show ?case
    by (simp only: split run_writes.simps first sum.case) (simp add: add.commute)
qed

lemma js_RIFF: "map ucast (js ''RIFF'') = [0x52, 0x49, 0x46, 0x46 :: 8 word]"
  and js_WAVE: "map ucast (js ''WAVE'') = [0x57, 0x41, 0x56, 0x45 :: 8 word]"
  and js_fmt: "map ucast (js ''fmt '') = [0x66, 0x6D, 0x74, 0x20 :: 8 word]"
  and js_data: "map ucast (js ''data'') = [0x64, 0x61, 0x74, 0x61 :: 8 word]"
  by code_simp+

lemma length_js4 [simp]: "length (js ''RIFF'') = 4" "length (js ''WAVE'') = 4" "length (js ''fmt '') = 4" "length (js ''data'') = 4"
  by (simp_all add: js_def)

lemma header_written:
  "run_writes
     [writeString 0 (js ''RIFF''),
      setUint32 4 v1,
      writeString 8 (js ''WAVE''),
      writeString 12 (js ''fmt ''),
      setUint32 16 v2,
      setUint16 20 v3,
      setUint16 22 v4,
      setUint32 24 v5,
      setUint32 28 v6,
      setUint16 32 v7,
      setUint16 34 v8,
      writeString 36 (js ''data''),
      setUint32 40 v9]
     (replicate 44 0 @ rest)
   = Inr (([0x52, 0x49, 0x46, 0x46] @ le32 (word_of_int v1) @ [0x57, 0x41, 0x56, 0x45]
     @ [0x66, 0x6D, 0x74, 0x20] @ le32 (word_of_int v2) @ le16 (word_of_int v3) @ le16 (word_of_int v4)
     @ le32 (word_of_int v5) @ le32 (word_of_int v6)
     @ le16 (word_of_int v7) @ le16 (word_of_int v8)
     @ [0x64, 0x61, 0x74, 0x61] @ le32 (word_of_int v9)) @ rest)"
proof -
  let ?z = "\<lambda>n. replicate n (0::8 word)"
  define d0 where "d0 = ([] :: bytes)"
  have l0: "length d0 = 0" by (simp add: d0_def)
  define d1 where "d1 = d0 @ [0x52, 0x49, 0x46, 0x46]"
  have l1: "length d1 = 4" by (simp add: d1_def l0)
  have s1: "writeString 0 (js ''RIFF'') (d0 @ ?z 44 @ rest) = Inr (d1 @ ?z 40 @ rest)"
    by (subst writeString_next [where off = 0]) (simp_all add: l0 d1_def js_RIFF)
  define d2 where "d2 = d1 @ le32 (word_of_int v1)"
  have l2: "length d2 = 8" by (simp add: d2_def l1)
  have s2: "setUint32 4 v1 (d1 @ ?z 40 @ rest) = Inr (d2 @ ?z 36 @ rest)"
    unfolding setUint32_def by (subst set_bytes_next [where off = 4]) (simp_all add: l1 d2_def)
  define d3 where "d3 = d2 @ [0x57, 0x41, 0x56, 0x45]"
  have l3: "length d3 = 12" by (simp add: d3_def l2)
  have s3: "writeString 8 (js ''WAVE'') (d2 @ ?z 36 @ rest) = Inr (d3 @ ?z 32 @ rest)"
    by (subst writeString_next [where off = 8]) (simp_all add: l2 d3_def js_WAVE)
  define d4 where "d4 = d3 @ [0x66, 0x6D, 0x74, 0x20]"
  have l4: "length d4 = 16" by (simp add: d4_def l3)
  have s4: "writeString 12 (js ''fmt '') (d3 @ ?z 32 @ rest) = Inr (d4 @ ?z 28 @ rest)"
    by (subst writeString_next [where off = 12]) (simp_all add: l3 d4_def js_fmt)
  define d5 where "d5 = d4 @ le32 (word_of_int v2)"
  have l5: "length d5 = 20" by (simp add: d5_def l4)
  have s5: "setUint32 16 v2 (d4 @ ?z 28 @ rest) = Inr (d5 @ ?z 24 @ rest)"
    unfolding setUint32_def by (subst set_bytes_next [where off = 16]) (simp_all add: l4 d5_def)
  define d6 where "d6 = d5 @ le16 (word_of_int v3)"
  have l6: "length d6 = 22" by (simp add: d6_def l5)
  have s6: "setUint16 20 v3 (d5 @ ?z 24 @ rest) = Inr (d6 @ ?z 22 @ rest)"
    unfolding setUint16_def by (subst set_bytes_next [where off = 20]) (simp_all add: l5 d6_def)
  define d7 where "d7 = d6 @ le16 (word_of_int v4)"
  have l7: "length d7 = 24" by (simp add: d7_def l6)
  have s7: "setUint16 22 v4 (d6 @ ?z 22 @ rest) = Inr (d7 @ ?z 20 @ rest)"
    unfolding setUint16_def by (subst set_bytes_next [where off = 22]) (simp_all add: l6 d7_def)
  define d8 where "d8 = d7 @ le32 (word_of_int v5)"
  have l8: "length d8 = 28" by (simp add: d8_def l7)
  have s8: "setUint32 24 v5 (d7 @ ?z 20 @ rest) = Inr (d8 @ ?z 16 @ rest)"
    unfolding setUint32_def by (subst set_bytes_next [where off = 24]) (simp_all add: l7 d8_def)
  define d9 where "d9 = d8 @ le32 (word_of_int v6)"
  have l9: "length d9 = 32" by (simp add: d9_def l8)
  have s9: "setUint32 28 v6 (d8 @ ?z 16 @ rest) = Inr (d9 @ ?z 12 @ rest)"
    unfolding setUint32_def by (subst set_bytes_next [where off = 28]) (simp_all add: l8 d9_def)
  define d10 where "d10 = d9 @ le16 (word_of_int v7)"
  have l10: "length d10 = 34" by (simp add: d10_def l9)
  have s10: "setUint16 32 v7 (d9 @ ?z 12 @ rest) = Inr (d10 @ ?z 10 @ rest)"
    unfolding setUint16_def by (subst set_bytes_next [where off = 32]) (simp_all add: l9 d10_def)
  define d11 where "d11 = d10 @ le16 (word_of_int v8)"
  have l11: "length d11 = 36" by (simp add: d11_def l10)
  have s11: "setUint16 34 v8 (d10 @ ?z 10 @ rest) = Inr (d11 @ ?z 8 @ rest)"
    unfolding setUint16_def by (subst set_bytes_next [where off = 34]) (simp_all add: l10 d11_def)
  define d12 where "d12 = d11 @ [0x64, 0x61, 0x74, 0x61]"
  have l12: "length d12 = 40" by (simp add: d12_def l11)
  have s12: "writeString 36 (js ''data'') (d11 @ ?z 8 @ rest) = Inr (d12 @ ?z 4 @ rest)"
    by (subst writeString_next [where off = 36]) (simp_all add: l11 d12_def js_data)
  define d13 where "d13 = d12 @ le32 (word_of_int v9)"
  have l13: "length d13 = 44" by (simp add: d13_def l12)
  have s13: "setUint32 40 v9 (d12 @ ?z 4 @ rest) = Inr (d13 @ ?z 0 @ rest)"
    unfolding setUint32_def by (subst set_bytes_next [where off = 40]) (simp_all add: l12 d13_def)
  have main: "run_writes [writeString 0 (js ''RIFF''), setUint32 4 v1, writeString 8 (js ''WAVE''), writeString 12 (js ''fmt ''), setUint32 16 v2, setUint16 20 v3, setUint16 22 v4, setUint32 24 v5, setUint32 28 v6, setUint16 32 v7, setUint16 34 v8, writeString 36 (js ''data''), setUint32 40 v9] (d0 @ ?z 44 @ rest) = Inr (d13 @ ?z 0 @ rest)"
    by (simp only: run_writes.simps sum.case s1 s2 s3 s4 s5 s6 s7 s8 s9 s10 s11 s12 s13)
  have fin: "run_writes [writeString 0 (js ''RIFF''), setUint32 4 v1, writeString 8 (js ''WAVE''), writeString 12 (js ''fmt ''), setUint32 16 v2, setUint16 20 v3, setUint16 22 v4, setUint32 24 v5, setUint32 28 v6, setUint16 32 v7, setUint16 34 v8, writeString 36 (js ''data''), setUint32 40 v9] (replicate 44 0 @ rest) = Inr (d13 @ rest)"
    using main by (simp only: d0_def append_Nil replicate_0)
  have d13: "d13 = [0x52, 0x49, 0x46, 0x46] @ le32 (word_of_int v1) @ [0x57, 0x41, 0x56, 0x45]
     @ [0x66, 0x6D, 0x74, 0x20] @ le32 (word_of_int v2) @ le16 (word_of_int v3) @ le16 (word_of_int v4)
     @ le32 (word_of_int v5) @ le32 (word_of_int v6)
     @ le16 (word_of_int v7) @ le16 (word_of_int v8)
     @ [0x64, 0x61, 0x74, 0x61] @ le32 (word_of_int v9)"
    by (simp only: d13_def d12_def d11_def d10_def d9_def d8_def d7_def d6_def d5_def d4_def d3_def d2_def d1_def d0_def append_Nil append_assoc)
  show ?thesis by (simp only: fin d13)
qed


lemma length_spec_wav_header: "length (spec_wav_header n sampleRate) = 44"
  by (simp add: spec_wav_header_def)

lemma header_then:
  "run_writes
     ([writeString 0 (js ''RIFF''), setUint32 4 v1, writeString 8 (js ''WAVE''),
       writeString 12 (js ''fmt ''), setUint32 16 v2, setUint16 20 v3, setUint16 22 v4,
       setUint32 24 v5, setUint32 28 v6, setUint16 32 v7, setUint16 34 v8,
       writeString 36 (js ''data''), setUint32 40 v9] @ ws)
     (replicate 44 0 @ rest)
   = run_writes ws
      (([0x52, 0x49, 0x46, 0x46] @ le32 (word_of_int v1) @ [0x57, 0x41, 0x56, 0x45]
        @ [0x66, 0x6D, 0x74, 0x20] @ le32 (word_of_int v2) @ le16 (word_of_int v3) @ le16 (word_of_int v4)
        @ le32 (word_of_int v5) @ le32 (word_of_int v6)
        @ le16 (word_of_int v7) @ le16 (word_of_int v8)
        @ [0x64, 0x61, 0x74, 0x61] @ le32 (word_of_int v9)) @ rest)"
  by (simp only: run_writes_append header_written sum.case)

lemma spec_pcm16_fun:
  "spec_pcm16 = (\<lambda>x. le16 (word_of_int \<lfloor>max (- 1) (min 1 x) * 32767\<rfloor>))"
  by (rule ext) (simp add: spec_pcm16_def)

lemma writeWavToBuffer_bytes:
  "writeWavToBuffer audioData sampleRate
   = Inr (spec_wav_header (length audioData) sampleRate @ concat (map spec_pcm16 audioData))"
proof -
  have ds: "int (length audioData) * 16 div 8 = 2 * int (length audioData)" by simp
  have buf: "replicate (nat (44 + int (length audioData) * 16 div 8)) (0::8 word)
             = replicate 44 0 @ replicate (2 * length audioData) 0"
    by (simp add: nat_add_distrib nat_mult_distrib replicate_add)
  show ?thesis
    unfolding writeWavToBuffer_def Let_def buf header_then
    by (subst samples_written [where off = 44 and g = "\<lambda>x. \<lfloor>max (- 1) (min 1 x) * 32767\<rfloor>"])
       (simp_all add: spec_wav_header_def spec_pcm16_fun)
qed

text \<open>
  C7. For every list of samples and every sample rate, \<open>writeWavToBuffer\<close> returns the
  44 bytes of the RIFF/WAVE header of the specification (PCM format 1, 1 channel,
  16 bits, byte rate \<open>sample_rate \<sqdot> 1 \<sqdot> 16 / 8\<close>, data size \<open>2 \<sqdot> N\<close>, RIFF size
  \<open>36 + 2 \<sqdot> N\<close>, every field as an unsigned little-endian integer of its width), followed
  by each sample \<open>s\<close> as the little-endian 16-bit value of \<open>\<lfloor>clamp(s, -1, 1) \<sqdot> 32767\<rfloor>\<close>.
\<close>

theorem wav_layout:
  "writeWavToBuffer audioData sampleRate
   = Inr (spec_wav_header (length audioData) sampleRate @ concat (map spec_pcm16 audioData))
   \<and> length (spec_wav_header (length audioData) sampleRate) = 44"
  by (simp only: writeWavToBuffer_bytes length_spec_wav_header simp_thms)

text \<open>Two samples, \<open>1/2\<close> and \<open>-2\<close> (clamped to \<open>-1\<close>), at sample rate 4.\<close>

theorem wav_layout_witness:
  "writeWavToBuffer [1 / 2, - 2] 4
   = Inr [0x52, 0x49, 0x46, 0x46, 40, 0, 0, 0, 0x57, 0x41, 0x56, 0x45,
          0x66, 0x6D, 0x74, 0x20, 16, 0, 0, 0, 1, 0, 1, 0, 4, 0, 0, 0, 8, 0, 0, 0, 2, 0, 16, 0,
          0x64, 0x61, 0x74, 0x61, 4, 0, 0, 0,
          0xFF, 0x3F, 0x01, 0x80]"
  using wav_layout [of "[1 / 2, - 2]" 4]
  by (simp add: spec_wav_header_def spec_pcm16_def le16_def le32_def)

section \<open>Inference without denoising steps\<close>

lemma infer_duration:
  "infer tts rand pos textList style totalStep speed = (evs, Inr r) \<Longrightarrow>
   out_duration r = map (\<lambda>d. d / speed) (dp_data tts textList style)"
  by (auto simp: infer_def Let_def split: if_splits sum.splits)

lemma run_denoise_none:
  "totalStep \<le> 0 \<Longrightarrow> run_denoise tts textList style totalStep maskCong trace = (nl_xt maskCong, trace)"
  by (simp add: run_denoise_def Let_def denoise_loop_none)

text \<open>
  C10. For every \<open>totalStep \<le> 0\<close>, whenever the latent sampler returns its initial masked
  latent (and \<open>speed\<close> is not \<open>0\<close>), \<open>infer\<close> returns without an error: after the duration
  predictor and the text encoder it makes no vector estimator call, runs the vocoder on
  the initial latent and returns the vocoder's output as the waveform.
\<close>

theorem no_steps_vocoder_on_initial_latent:
  assumes "totalStep \<le> 0"
      and "speed \<noteq> 0"
      and "initial_latent tts rand pos (map (\<lambda>d. d / speed) (dp_data tts textList style)) = Inr maskCong"
  shows "infer tts rand pos textList style totalStep speed
         = (infer_prelude tts textList style
              @ [VocoderRun (xt_tensor (length textList) (nl_xt maskCong))],
            Inr \<lparr>out_wav = vocoderOrt tts (xt_tensor (length textList) (nl_xt maskCong)),
                 out_duration = map (\<lambda>d. d / speed) (dp_data tts textList style),
                 out_pos = nl_pos maskCong\<rparr>)"
  using assms by (simp add: infer_def Let_def run_denoise_none)

lemma demo_ids: "text_ids_tensor demo_tts [js ''Hi''] = \<lparr>data = [- 1, - 1], dims = [1, 2]\<rparr>"
  by (simp add: text_ids_tensor_def demo_tts_def UnicodeProcessor_call_def no_normalize_def js_def
      Math_max_def index_row_def codePointAt_def len0_def Let_def upt_rec is_leading_surrogate_def
      getTextMask_def)

lemma demo_mask: "text_mask_tensor demo_tts [js ''Hi''] = \<lparr>data = [1, 1], dims = [1, 1, 2]\<rparr>"
  by (simp add: text_mask_tensor_def demo_tts_def UnicodeProcessor_call_def no_normalize_def js_def
      Math_max_def len00_def Let_def upt_rec getTextMask_def UnicodeProcessor_lengthToMask_def)

lemma demo_latent:
  "initial_latent demo_tts quarter_rand 0 [3 / 2]
   = Inr \<lparr>nl_xt = [[[0, 0, 0]]], nl_latentMask = [[[1, 1, 1]]], nl_pos = 6\<rparr>"
  by (simp add: initial_latent_def demo_tts_def demo_cfgs_def sampleNoisyLatent_def
      TextToSpeech_lengthToMask_def mask_row_def box_muller_def quarter_rand_def Let_def upt_rec
      numeral_eq_Suc)

lemma demo_dp_data: "dp_data demo_tts [js ''Hi''] demo_style = [3 / 2]"
  by (simp add: dp_data_def demo_tts_def demo_dp_def)


lemma demo_vocoder: "vocoderOrt demo_tts latent = [1 / 2, - 1 / 4]"
  by (simp add: demo_tts_def demo_vocoder_def)

text \<open>An instance: the text \<open>Hi\<close> with \<open>totalStep = 0\<close> and \<open>speed = 1\<close>.\<close>

theorem no_steps_vocoder_on_initial_latent_witness:
  "infer demo_tts quarter_rand 0 [js ''Hi''] demo_style 0 1
   = ([DurationPredictorRun \<lparr>data = [- 1, - 1], dims = [1, 2]\<rparr> (dp demo_style)
         \<lparr>data = [1, 1], dims = [1, 1, 2]\<rparr>,
       TextEncoderRun \<lparr>data = [- 1, - 1], dims = [1, 2]\<rparr> (ttl demo_style)
         \<lparr>data = [1, 1], dims = [1, 1, 2]\<rparr>,
       VocoderRun \<lparr>data = [0, 0, 0], dims = [1, 1, 3]\<rparr>],
      Inr \<lparr>out_wav = [1 / 2, - 1 / 4], out_duration = [3 / 2], out_pos = 6\<rparr>)"
proof -
  have lat: "initial_latent demo_tts quarter_rand 0
               (map (\<lambda>d. d / 1) (dp_data demo_tts [js ''Hi''] demo_style))
             = Inr \<lparr>nl_xt = [[[0, 0, 0]]], nl_latentMask = [[[1, 1, 1]]], nl_pos = 6\<rparr>"
    by (simp add: demo_dp_data demo_latent)
  have z: "(0::int) \<le> 0" and o: "(1::real) \<noteq> 0" by simp_all
  show ?thesis
    using no_steps_vocoder_on_initial_latent [OF z o lat]
    by (simp add: infer_prelude_def demo_ids demo_mask demo_dp_data xt_tensor_def len0_def
        len00_def demo_vocoder)
qed


section \<open>Synthesis of an empty text\<close>

lemma trim_Nil: "trim [] = []"
  by (simp add: trim_def)

lemma js_split_blank_Nil: "js_split blank_line_match [] = [[]]"
  by (simp add: js_split_def blank_line_match_def)

lemma chunkText_blank: "trim text = [] \<Longrightarrow> chunkText text maxLen = []"
  by (simp add: chunkText_def js_split_blank_Nil trim_Nil)

lemma call_no_chunks:
  "dims (ttl style) = 1 # ds \<Longrightarrow> chunkText text 300 = [] \<Longrightarrow>
   call tts rand pos text style totalStep speed silenceDuration
   = ([], Inr \<lparr>out_wav = [], out_duration = [0], out_pos = pos\<rparr>)"
  by (simp add: call_def)

text \<open>
  C9. For every text that is empty after trimming, and a voice style document that
  \<open>loadVoiceStyle\<close> accepts, the chunker returns the empty list and \<open>synthesize\<close> returns
  without an error and without any session call: the duration is \<open>0\<close> and the buffer is
  the 44-byte header for zero samples.
\<close>

theorem empty_text_synthesis:
  assumes blank: "trim (opt_text options) = []"
      and style: "loadVoiceStyle (assets (opt_voiceStyle options)) = Inr style"
  shows "chunkText (opt_text options) 300 = []
         \<and> synthesize tts assets rand pos options
             = ([], Inr \<lparr>res_wavBuffer = spec_wav_header 0 (sample_rate (cfgs tts)),
                         res_sampleRate = sample_rate (cfgs tts),
                         res_durationSeconds = 0\<rparr>)
         \<and> length (spec_wav_header 0 (sample_rate (cfgs tts))) = 44"
proof -
  have chunks: "chunkText (opt_text options) 300 = []"
    using blank by (rule chunkText_blank)
  obtain ds where ds: "dims (ttl style) = 1 # ds"
    using loadVoiceStyle_first_dim [OF style] by blast
  have w: "writeWavToBuffer [] (sample_rate (cfgs tts)) = Inr (spec_wav_header 0 (sample_rate (cfgs tts)))"
    using writeWavToBuffer_bytes [of "[]" "sample_rate (cfgs tts)"] by simp
  have "synthesize tts assets rand pos options
        = ([], Inr \<lparr>res_wavBuffer = spec_wav_header 0 (sample_rate (cfgs tts)),
                    res_sampleRate = sample_rate (cfgs tts),
                    res_durationSeconds = 0\<rparr>)"
    by (simp add: synthesize_def Let_def style call_no_chunks [OF ds chunks] first_or_zero_def
        slice0_def w)
  with chunks show ?thesis by (simp add: length_spec_wav_header)
qed

lemma load_demo_voice: "loadVoiceStyle demo_voice_json = Inr demo_style"
  by (simp add: loadVoiceStyle_def demo_voice_json_def demo_style_def new_Float32Array_def
      typed_array_set_def Let_def)

lemma trim_space: "trim (js '' '') = []"
  by (simp add: trim_def js_def is_ws_def)

lemma demo_header:
  "spec_wav_header 0 4 = [0x52, 0x49, 0x46, 0x46, 36, 0, 0, 0, 0x57, 0x41, 0x56, 0x45,
                     0x66, 0x6D, 0x74, 0x20, 16, 0, 0, 0, 1, 0, 1, 0, 4, 0, 0, 0, 8, 0, 0, 0,
                     2, 0, 16, 0, 0x64, 0x61, 0x74, 0x61, 0, 0, 0, 0]"
  by (simp add: spec_wav_header_def le16_def le32_def)

lemma demo_rate: "sample_rate (cfgs demo_tts) = 4"
  by (simp add: demo_tts_def demo_cfgs_def)

text \<open>An instance: the text of one space.\<close>

theorem empty_text_synthesis_witness:
  "chunkText (js '' '') 300 = []
   \<and> synthesize demo_tts demo_assets quarter_rand 0
       \<lparr>opt_text = js '' '', opt_voiceStyle = F1, opt_totalStep = 5, opt_speed = 1,
        opt_silenceDurationSeconds = None\<rparr>
     = ([], Inr \<lparr>res_wavBuffer =
                    [0x52, 0x49, 0x46, 0x46, 36, 0, 0, 0, 0x57, 0x41, 0x56, 0x45,
                     0x66, 0x6D, 0x74, 0x20, 16, 0, 0, 0, 1, 0, 1, 0, 4, 0, 0, 0, 8, 0, 0, 0,
                     2, 0, 16, 0, 0x64, 0x61, 0x74, 0x61, 0, 0, 0, 0],
                 res_sampleRate = 4, res_durationSeconds = 0\<rparr>)"
  using empty_text_synthesis [of "\<lparr>opt_text = js '' '', opt_voiceStyle = F1, opt_totalStep = 5,
      opt_speed = 1, opt_silenceDurationSeconds = None\<rparr>" demo_assets demo_style demo_tts
      quarter_rand 0]
  by (simp add: trim_space demo_assets_def load_demo_voice demo_rate demo_header)

section \<open>Concatenation of the chunks\<close>

lemma infer_each_ok_Cons:
  assumes "infer_each tts rand style totalStep speed (chunk # chunks) pos
           = map (\<lambda>(evs, r). (evs, Inr r)) ers"
  obtains evs r ers' where "ers = (evs, r) # ers'"
    and "infer tts rand pos [chunk] style totalStep speed = (evs, Inr r)"
    and "infer_each tts rand style totalStep speed chunks (out_pos r) = map (\<lambda>(evs, r). (evs, Inr r)) ers'"
proof -
  obtain evs x where inf: "infer tts rand pos [chunk] style totalStep speed = (evs, x)"
    by (cases "infer tts rand pos [chunk] style totalStep speed")
  show ?thesis
  proof (cases x)
    case (Inl e)
    with inf assms have "[(evs, Inl e)] = map (\<lambda>(evs, r). (evs, Inr r)) ers" by simp
    then have False by (cases ers) (auto split: prod.splits)
    then show ?thesis ..
  next
    case (Inr r)
    with inf assms have eq: "(evs, Inr r) # infer_each tts rand style totalStep speed chunks (out_pos r)
                         = map (\<lambda>(evs, r). (evs, Inr r)) ers" by simp
    then obtain er ers' where ers: "ers = er # ers'" by (cases ers) auto
    with eq have "er = (evs, r)"
      and "infer_each tts rand style totalStep speed chunks (out_pos r) = map (\<lambda>(evs, r). (evs, Inr r)) ers'"
      by (auto split: prod.splits)
    with ers inf Inr that show ?thesis by blast
  qed
qed

lemma infer_each_ok_Nil:
  "infer_each tts rand style totalStep speed [] pos = map (\<lambda>(evs, r). (evs, Inr r)) ers \<Longrightarrow> ers = []"
  by simp

lemma call_loop_acc:
  assumes "wavCat \<noteq> []"
      and "0 \<le> silenceDuration * of_int (sample_rate (cfgs tts))"
      and "infer_each tts rand style totalStep speed chunks pos = map (\<lambda>(evs, r). (evs, Inr r)) ers"
  shows "call_loop tts rand style totalStep speed silenceDuration chunks wavCat durCat pos trace
         = (trace @ concat (map fst ers),
            Inr \<lparr>out_wav = wavCat @ concat (map (\<lambda>er. replicate (nat \<lfloor>silenceDuration * of_int (sample_rate (cfgs tts))\<rfloor>) 0 @ out_wav (snd er)) ers),
                 out_duration = [durCat + sum_list (map (\<lambda>er. first_or_zero (out_duration (snd er)) + silenceDuration) ers)],
                 out_pos = last (pos # map (\<lambda>er. out_pos (snd er)) ers)\<rparr>)"
  using assms
proof (induction chunks arbitrary: wavCat durCat pos trace ers)
  case Nil
  then have "ers = []" by simp
  then show ?case by simp
next
  case (Cons chunk chunks)
  from Cons.prems(3) obtain evs r ers' where ers: "ers = (evs, r) # ers'"
    and inf: "infer tts rand pos [chunk] style totalStep speed = (evs, Inr r)"
    and rest: "infer_each tts rand style totalStep speed chunks (out_pos r) = map (\<lambda>(evs, r). (evs, Inr r)) ers'"
    by (rule infer_each_ok_Cons)
  have sl: "\<not> \<lfloor>silenceDuration * of_int (sample_rate (cfgs tts))\<rfloor> < 0"
    using Cons.prems(2) by simp
  have ne: "wavCat @ replicate (nat \<lfloor>silenceDuration * of_int (sample_rate (cfgs tts))\<rfloor>) 0 @ out_wav r \<noteq> []"
    using Cons.prems(1) by simp
  have "call_loop tts rand style totalStep speed silenceDuration (chunk # chunks) wavCat durCat pos trace
        = call_loop tts rand style totalStep speed silenceDuration chunks
            (wavCat @ replicate (nat \<lfloor>silenceDuration * of_int (sample_rate (cfgs tts))\<rfloor>) 0 @ out_wav r)
            (durCat + (first_or_zero (out_duration r) + silenceDuration)) (out_pos r) (trace @ evs)"
    using Cons.prems(1) sl by (simp add: inf Let_def)
  also note Cons.IH [OF ne Cons.prems(2) rest]
  finally show ?case by (simp add: ers add.assoc)
qed

lemma infer_each_durations:
  "infer_each tts rand style totalStep speed chunks pos = map (\<lambda>(evs, r). (evs, Inr r)) ers \<Longrightarrow>
   map (\<lambda>er. out_duration (snd er)) ers
   = map (\<lambda>chunk. map (\<lambda>d. d / speed) (dp_data tts [chunk] style)) chunks"
proof (induction chunks arbitrary: pos ers)
  case Nil
  then show ?case by simp
next
  case (Cons chunk chunks)
  from Cons.prems obtain evs r ers' where ers: "ers = (evs, r) # ers'"
    and inf: "infer tts rand pos [chunk] style totalStep speed = (evs, Inr r)"
    and rest: "infer_each tts rand style totalStep speed chunks (out_pos r) = map (\<lambda>(evs, r). (evs, Inr r)) ers'"
    by (rule infer_each_ok_Cons)
  from Cons.IH [OF rest] infer_duration [OF inf] show ?case by (simp add: ers)
qed

text \<open>
  C4 (amended). The duration that \<open>infer\<close> reports for a chunk is the output of the
  duration predictor divided by \<open>speed\<close>. When the inference of each of the \<open>n\<close> chunks
  of a text returns, the waveform of the first chunk is not empty, and
  \<open>silenceDuration \<sqdot> sample_rate\<close> is not negative, \<open>call\<close> returns the waveform of the first
  chunk followed, for each further chunk, by \<open>\<lfloor>silenceDuration \<sqdot> sample_rate\<rfloor>\<close> zeros and the
  waveform of that chunk, and the total duration is the sum of the durations of the
  chunks plus \<open>silenceDuration\<close> for each of the \<open>n - 1\<close> gaps. (The source recognises the
  first chunk by \<open>wavCat.length === 0\<close>.)
\<close>

theorem chunks_concatenated:
  assumes style: "dims (ttl style) = 1 # ds"
      and runs: "infer_each tts rand style totalStep speed (chunkText text 300) pos
                 = map (\<lambda>(evs, r). (evs, Inr r)) ers"
      and first: "case ers of [] \<Rightarrow> True | er # rest \<Rightarrow> out_wav (snd er) \<noteq> []"
      and silence: "0 \<le> silenceDuration * of_int (sample_rate (cfgs tts))"
  shows "map (\<lambda>er. out_duration (snd er)) ers
         = map (\<lambda>chunk. map (\<lambda>d. d / speed) (dp_data tts [chunk] style)) (chunkText text 300)
       \<and> call tts rand pos text style totalStep speed silenceDuration
         = (concat (map fst ers),
            Inr \<lparr>out_wav =
                   (case ers of [] \<Rightarrow> []
                    | er # rest \<Rightarrow>
                        out_wav (snd er)
                        @ concat (map (\<lambda>er. replicate (nat \<lfloor>silenceDuration * of_int (sample_rate (cfgs tts))\<rfloor>) 0
                                              @ out_wav (snd er)) rest)),
                 out_duration =
                   [sum_list (map (\<lambda>er. first_or_zero (out_duration (snd er))) ers)
                    + real (length ers - 1) * silenceDuration],
                 out_pos = last (pos # map (\<lambda>er. out_pos (snd er)) ers)\<rparr>)"
proof
  show "map (\<lambda>er. out_duration (snd er)) ers
         = map (\<lambda>chunk. map (\<lambda>d. d / speed) (dp_data tts [chunk] style)) (chunkText text 300)"
    using runs by (rule infer_each_durations)
next
  define chunks where "chunks = chunkText text 300"
  have c: "call tts rand pos text style totalStep speed silenceDuration
           = call_loop tts rand style totalStep speed silenceDuration chunks [] 0 pos []"
    using style by (simp add: call_def chunks_def)
  have sums: "sum_list (map (\<lambda>er. first_or_zero (out_duration (snd er)) + silenceDuration) xs)
              = sum_list (map (\<lambda>er. first_or_zero (out_duration (snd er))) xs) + real (length xs) * silenceDuration"
    for xs :: "(event list \<times> InferResult) list"
    by (induction xs) (simp_all add: algebra_simps)
  show "call tts rand pos text style totalStep speed silenceDuration
         = (concat (map fst ers),
            Inr \<lparr>out_wav =
                   (case ers of [] \<Rightarrow> []
                    | er # rest \<Rightarrow>
                        out_wav (snd er)
                        @ concat (map (\<lambda>er. replicate (nat \<lfloor>silenceDuration * of_int (sample_rate (cfgs tts))\<rfloor>) 0
                                              @ out_wav (snd er)) rest)),
                 out_duration =
                   [sum_list (map (\<lambda>er. first_or_zero (out_duration (snd er))) ers)
                    + real (length ers - 1) * silenceDuration],
                 out_pos = last (pos # map (\<lambda>er. out_pos (snd er)) ers)\<rparr>)"
  proof (cases chunks)
    case Nil
    with runs have "ers = []" by (simp add: chunks_def)
    with Nil c show ?thesis by simp
  next
    case (Cons chunk rest)
    from runs [folded chunks_def, unfolded Cons] obtain evs r ers' where ers: "ers = (evs, r) # ers'"
      and inf: "infer tts rand pos [chunk] style totalStep speed = (evs, Inr r)"
      and more: "infer_each tts rand style totalStep speed rest (out_pos r) = map (\<lambda>(evs, r). (evs, Inr r)) ers'"
      by (rule infer_each_ok_Cons)
    have ne: "out_wav r \<noteq> []" using first ers by simp
    have "call tts rand pos text style totalStep speed silenceDuration
          = call_loop tts rand style totalStep speed silenceDuration rest (out_wav r)
              (first_or_zero (out_duration r)) (out_pos r) ([] @ evs)"
      by (simp add: c Cons inf)
    also note call_loop_acc [OF ne silence more]
    finally show ?thesis by (simp add: ers sums)
  qed
qed

lemma demo_style_dims: "dims (ttl demo_style) = [1, 1, 1]"
  by (simp add: demo_style_def)

lemma two_chunks: "chunkText text_a_b 300 = [js ''a'', js ''b'']"
  by code_simp

lemma two_chunks_short: "chunkText text_a_bcd 300 = [js ''a'', js ''bcd'']"
  by code_simp

lemma demo_latent_at:
  "initial_latent demo_tts quarter_rand p [3 / 2]
   = Inr \<lparr>nl_xt = [[[0, 0, 0]]], nl_latentMask = [[[1, 1, 1]]], nl_pos = p + 6\<rparr>"
  by (simp add: initial_latent_def demo_tts_def demo_cfgs_def sampleNoisyLatent_def
      TextToSpeech_lengthToMask_def mask_row_def box_muller_def quarter_rand_def Let_def upt_rec
      numeral_eq_Suc)

lemma demo_dp_any: "dp_data demo_tts textList demo_style = [3 / 2]"
  by (simp add: dp_data_def demo_tts_def demo_dp_def)

lemma demo_infer:
  "snd (infer demo_tts quarter_rand p textList demo_style 1 1)
   = Inr \<lparr>out_wav = [1 / 2, - 1 / 4], out_duration = [3 / 2], out_pos = p + 6\<rparr>"
  by (simp add: infer_def Let_def demo_dp_any demo_latent_at demo_vocoder)


text \<open>
  An instance with two chunks of duration \<open>3/2\<close> each, at 4 samples per second and with
  the default silence of \<open>0.3\<close> seconds: one zero sample between the waveforms.
\<close>

theorem chunks_concatenated_witness:
  "snd (call demo_tts quarter_rand 0 text_a_b demo_style 1 1 (3 / 10))
   = Inr \<lparr>out_wav = [1 / 2, - 1 / 4, 0, 1 / 2, - 1 / 4], out_duration = [33 / 10], out_pos = 12\<rparr>"
proof -
  obtain evs0 where i0: "infer demo_tts quarter_rand 0 [js ''a''] demo_style 1 1
      = (evs0, Inr \<lparr>out_wav = [1 / 2, - 1 / 4], out_duration = [3 / 2], out_pos = 6\<rparr>)"
    using demo_infer [of 0 "[js ''a'']"]
    by (cases "infer demo_tts quarter_rand 0 [js ''a''] demo_style 1 1") simp
  obtain evs6 where i6: "infer demo_tts quarter_rand 6 [js ''b''] demo_style 1 1
      = (evs6, Inr \<lparr>out_wav = [1 / 2, - 1 / 4], out_duration = [3 / 2], out_pos = 12\<rparr>)"
    using demo_infer [of 6 "[js ''b'']"]
    by (cases "infer demo_tts quarter_rand 6 [js ''b''] demo_style 1 1") simp
  let ?ers = "[(evs0, \<lparr>out_wav = [1 / 2, - 1 / 4], out_duration = [3 / 2], out_pos = 6\<rparr>),
               (evs6, \<lparr>out_wav = [1 / 2, - 1 / 4], out_duration = [3 / 2], out_pos = 12\<rparr>)]"
  have style: "dims (ttl demo_style) = 1 # [1, 1]" by (simp add: demo_style_dims)
  have runs: "infer_each demo_tts quarter_rand demo_style 1 1
                (chunkText text_a_b 300) 0
              = map (\<lambda>(evs, r). (evs, Inr r)) ?ers"
    by (simp add: two_chunks i0 i6)
  have first: "case ?ers of [] \<Rightarrow> True | er # rest \<Rightarrow> out_wav (snd er) \<noteq> []" by simp
  have silence: "0 \<le> (3 / 10 :: real) * of_int (sample_rate (cfgs demo_tts))"
    by (simp add: demo_tts_def demo_cfgs_def)
  show ?thesis
    using chunks_concatenated [OF style runs first silence]
    by (simp add: first_or_zero_def demo_tts_def demo_cfgs_def)
qed

lemma short_ids_a: "text_ids_tensor short_tts [js ''a''] = \<lparr>data = [- 1], dims = [1, 1]\<rparr>"
  by (simp add: text_ids_tensor_def short_tts_def UnicodeProcessor_call_def no_normalize_def js_def
      Math_max_def index_row_def codePointAt_def len0_def Let_def is_leading_surrogate_def
      getTextMask_def)

lemma short_ids_bcd: "text_ids_tensor short_tts [js ''bcd''] = \<lparr>data = [- 1, - 1, - 1], dims = [1, 3]\<rparr>"
  by (simp add: text_ids_tensor_def short_tts_def UnicodeProcessor_call_def no_normalize_def js_def
      Math_max_def index_row_def codePointAt_def len0_def Let_def upt_rec is_leading_surrogate_def
      getTextMask_def)

lemma short_dp_a: "dp_data short_tts [js ''a''] demo_style = [0]"
  by (simp add: dp_data_def short_ids_a) (simp add: short_tts_def len_dp_def)

lemma short_dp_bcd: "dp_data short_tts [js ''bcd''] demo_style = [2]"
  by (simp add: dp_data_def short_ids_bcd) (simp add: short_tts_def len_dp_def)

lemma short_latent_a:
  "initial_latent short_tts quarter_rand p [0]
   = Inr \<lparr>nl_xt = [[[]]], nl_latentMask = [[[]]], nl_pos = p\<rparr>"
  by (simp add: initial_latent_def short_tts_def demo_cfgs_def sampleNoisyLatent_def
      TextToSpeech_lengthToMask_def mask_row_def Let_def)

lemma short_latent_bcd:
  "initial_latent short_tts quarter_rand p [2]
   = Inr \<lparr>nl_xt = [[[0, 0, 0, 0]]], nl_latentMask = [[[1, 1, 1, 1]]], nl_pos = p + 8\<rparr>"
  by (simp add: initial_latent_def short_tts_def demo_cfgs_def sampleNoisyLatent_def
      TextToSpeech_lengthToMask_def mask_row_def box_muller_def quarter_rand_def Let_def upt_rec
      numeral_eq_Suc)

lemma loop_once:
  "denoise_loop tts bsz emb style lmt tmt tst 1 0 x trace
   = (denoise_step tts bsz emb style lmt tmt tst 0 x,
      trace @ [VectorEstimatorRun (xt_tensor bsz x) (step_tensor bsz 0) tst])"
  by (subst denoise_loop.simps) (simp add: denoise_loop_none)

lemma short_est: "vectorEstOrt short_tts n e s l t c u = data n"
  by (simp add: short_tts_def demo_est_def)

lemma short_voc: "vocoderOrt short_tts latent = map (\<lambda>x. 1 / 2) (data latent)"
  by (simp add: short_tts_def cells_vocoder_def)

lemma short_infer_a:
  "snd (infer short_tts quarter_rand p [js ''a''] demo_style 1 1)
   = Inr \<lparr>out_wav = [], out_duration = [0], out_pos = p\<rparr>"
  by (simp add: infer_def Let_def short_dp_a short_latent_a run_denoise_def loop_once
      denoise_step_def short_est short_voc xt_tensor_def next_xt_def len0_def len00_def)

lemma short_infer_bcd:
  "snd (infer short_tts quarter_rand p [js ''bcd''] demo_style 1 1)
   = Inr \<lparr>out_wav = [1 / 2, 1 / 2, 1 / 2, 1 / 2], out_duration = [2], out_pos = p + 8\<rparr>"
  by (simp add: infer_def Let_def short_dp_bcd short_latent_bcd run_denoise_def loop_once
      denoise_step_def short_est short_voc xt_tensor_def next_xt_def len0_def len00_def upt_rec)

text \<open>
  C4 as stated fails when a chunk before the last has an empty waveform. With
  \<open>short_tts\<close> the chunk \<open>a\<close> has duration \<open>0\<close> and no samples, the chunk \<open>bcd\<close> has duration
  \<open>2\<close> and four samples; \<open>call\<close> returns the four samples without a leading zero sample
  and the duration \<open>2\<close>, not \<open>0 + 2 + 0.3\<close>.
\<close>

theorem empty_first_waveform_counterexample:
  "chunkText text_a_bcd 300 = [js ''a'', js ''bcd'']
   \<and> snd (infer short_tts quarter_rand 0 [js ''a''] demo_style 1 1)
       = Inr \<lparr>out_wav = [], out_duration = [0], out_pos = 0\<rparr>
   \<and> snd (infer short_tts quarter_rand 0 [js ''bcd''] demo_style 1 1)
       = Inr \<lparr>out_wav = [1 / 2, 1 / 2, 1 / 2, 1 / 2], out_duration = [2], out_pos = 8\<rparr>
   \<and> snd (call short_tts quarter_rand 0 text_a_bcd demo_style 1 1 (3 / 10))
       = Inr \<lparr>out_wav = [1 / 2, 1 / 2, 1 / 2, 1 / 2], out_duration = [2], out_pos = 8\<rparr>
   \<and> [1 / 2, 1 / 2, 1 / 2, 1 / 2]
       \<noteq> [] @ replicate (nat \<lfloor>(3 / 10 :: real) * of_int (sample_rate (cfgs short_tts))\<rfloor>) 0
           @ [1 / 2, 1 / 2, 1 / 2, 1 / 2 :: real]
   \<and> (2 :: real) \<noteq> 0 + 2 + 3 / 10"
proof -
  obtain evs0 where i0: "infer short_tts quarter_rand 0 [js ''a''] demo_style 1 1
      = (evs0, Inr \<lparr>out_wav = [], out_duration = [0], out_pos = 0\<rparr>)"
    using short_infer_a [of 0]
    by (cases "infer short_tts quarter_rand 0 [js ''a''] demo_style 1 1") simp
  obtain evs1 where i1: "infer short_tts quarter_rand 0 [js ''bcd''] demo_style 1 1
      = (evs1, Inr \<lparr>out_wav = [1 / 2, 1 / 2, 1 / 2, 1 / 2], out_duration = [2], out_pos = 8\<rparr>)"
    using short_infer_bcd [of 0]
    by (cases "infer short_tts quarter_rand 0 [js ''bcd''] demo_style 1 1") simp
  have c: "snd (call short_tts quarter_rand 0 text_a_bcd demo_style 1 1 (3 / 10))
       = Inr \<lparr>out_wav = [1 / 2, 1 / 2, 1 / 2, 1 / 2], out_duration = [2], out_pos = 8\<rparr>"
    by (simp add: call_def demo_style_dims two_chunks_short i0 i1 first_or_zero_def)
  have r: "sample_rate (cfgs short_tts) = 4" by (simp add: short_tts_def demo_cfgs_def)
  show ?thesis
    by (simp add: two_chunks_short short_infer_a short_infer_bcd c r)
qed

section \<open>The codepoint indexer\<close>

lemma code_points_no_leading:
  "list_all (\<lambda>c. \<not> is_leading_surrogate c) s \<Longrightarrow> code_points s = map unat s"
  by (induction s rule: code_points.induct) simp_all

lemma codePointAt_no_leading:
  "j < length s \<Longrightarrow> \<not> is_leading_surrogate (s ! j) \<Longrightarrow> codePointAt s j = Some (unat (s ! j))"
  by (simp add: codePointAt_def)

lemma fold_index_row:
  assumes "list_all (\<lambda>c. \<not> is_leading_surrogate c) text"
  shows "n \<le> length text \<Longrightarrow> length text \<le> length row \<Longrightarrow>
     fold (\<lambda>j row.
             case codePointAt text j of
               None \<Rightarrow> row
             | Some codePoint \<Rightarrow>
                 let indexValue = (if codePoint < length table then table ! codePoint else - 1)
                 in row[j := indexValue])
          [0..<n] row
     = map (\<lambda>j. if unat (text ! j) < length table then table ! unat (text ! j) else - 1) [0..<n]
       @ drop n row"
proof (induction n)
  case 0
  then show ?case by simp
next
  case (Suc n)
  define idx where "idx = (\<lambda>j. if unat (text ! j) < length table then table ! unat (text ! j) else - 1)"
  define F where "F = (\<lambda>j row.
             case codePointAt text j of
               None \<Rightarrow> row
             | Some codePoint \<Rightarrow>
                 let indexValue = (if codePoint < length table then table ! codePoint else - 1)
                 in row[j := indexValue])"
  have n: "n < length text" using Suc.prems by simp
  then have "\<not> is_leading_surrogate (text ! n)"
    using assms by (simp add: list_all_length)
  with n have cp: "codePointAt text n = Some (unat (text ! n))"
    by (rule codePointAt_no_leading)
  have step: "F n r = r[n := idx n]" for r
    by (simp add: F_def cp Let_def idx_def)
  have ih: "fold F [0..<n] row = map idx [0..<n] @ drop n row"
    unfolding F_def idx_def using Suc.prems by (intro Suc.IH) simp_all
  have "fold F [0..<Suc n] row = (map idx [0..<n] @ drop n row)[n := idx n]"
    by (simp add: step ih)
  also have "\<dots> = map idx [0..<n] @ (drop n row)[0 := idx n]"
    by (simp add: list_update_append)
  also have "(drop n row)[0 := idx n] = idx n # drop (Suc n) row"
    using n Suc.prems by (simp add: Cons_nth_drop_Suc [symmetric])
  finally have "fold F [0..<Suc n] row = map idx [0..<Suc n] @ drop (Suc n) row"
    by simp
  then show ?case unfolding F_def idx_def .
qed

lemma index_row_no_leading:
  assumes "list_all (\<lambda>c. \<not> is_leading_surrogate c) text" and "length text \<le> maxLen"
  shows "index_row table maxLen text
         = map (\<lambda>cp. if cp < length table then table ! cp else - 1) (code_points text)
           @ replicate (maxLen - length (code_points text)) 0"
proof -
  define g where "g = (\<lambda>cp. if cp < length table then table ! cp else (- 1 :: int))"
  have "index_row table maxLen text
        = map (\<lambda>j. if unat (text ! j) < length table then table ! unat (text ! j) else - 1)
            [0..<length text] @ drop (length text) (replicate maxLen 0)"
    unfolding index_row_def using assms by (intro fold_index_row) simp_all
  then have "index_row table maxLen text
        = map (\<lambda>j. g (unat (text ! j))) [0..<length text] @ replicate (maxLen - length text) 0"
    by (simp add: g_def)
  also have "map (\<lambda>j. g (unat (text ! j))) [0..<length text] = map (\<lambda>c. g (unat c)) text"
  proof -
    have "map (\<lambda>j. g (unat (text ! j))) [0..<length text]
          = map (\<lambda>c. g (unat c)) (map (\<lambda>j. text ! j) [0..<length text])"
      by (simp add: comp_def)
    then show ?thesis by (simp only: map_nth)
  qed
  finally have "index_row table maxLen text
                = map g (map unat text) @ replicate (maxLen - length (map unat text)) 0"
    by simp
  then show ?thesis
    unfolding g_def using assms(1) by (simp only: code_points_no_leading)
qed

lemma le_Math_max: "x \<in> set xs \<Longrightarrow> x \<le> Math_max xs"
proof -
  have "a \<le> fold max xs a \<and> (\<forall>x\<in>set xs. x \<le> fold max xs a)" for a :: nat
  proof (induction xs arbitrary: a)
    case Nil
    show ?case by simp
  next
    case (Cons y ys)
    from Cons [of "max y a"] show ?case by (auto simp: max_def split: if_splits)
  qed
  then show "x \<in> set xs \<Longrightarrow> x \<le> Math_max xs" by (simp add: Math_max_def)
qed

lemma text_mask_row:
  "len \<le> M \<Longrightarrow>
   fold (\<lambda>j r. r[j := (1::real)]) [0..<min len M] (replicate M 0)
   = replicate len 1 @ replicate (M - len) 0"
  by (simp add: fold_update_ones min_absorb1)

text \<open>
  For texts whose normal forms hold no leading surrogate, every code unit is a code
  point, and the indexer does what C2 says: one table entry (or \<open>-1\<close>) per code point,
  rows padded with \<open>0\<close> to the longest text, and as many ones in the mask row as there
  are code points.
\<close>

lemma indexer_without_surrogates:
  assumes "list_all (\<lambda>t. list_all (\<lambda>c. \<not> is_leading_surrogate c) (nfkc t)) textList"
  shows "UnicodeProcessor_call nfkc table textList
         = \<lparr>tok_textIds =
              map (\<lambda>t. map (\<lambda>cp. if cp < length table then table ! cp else - 1) (code_points (nfkc t))
                        @ replicate (Math_max (map (\<lambda>t. length (code_points (nfkc t))) textList)
                                     - length (code_points (nfkc t))) 0) textList,
            tok_textMask =
              map (\<lambda>t. [replicate (length (code_points (nfkc t))) 1
                         @ replicate (Math_max (map (\<lambda>t. length (code_points (nfkc t))) textList)
                                      - length (code_points (nfkc t))) 0]) textList\<rparr>"
proof -
  have cps: "code_points (nfkc t) = map unat (nfkc t)" if "t \<in> set textList" for t
    using assms that by (simp add: list_all_iff code_points_no_leading)
  have lens: "map (\<lambda>t. length (code_points (nfkc t))) textList = map (\<lambda>t. length (nfkc t)) textList"
    using cps by simp
  define M where "M = Math_max (map (\<lambda>t. length (nfkc t)) textList)"
  have le: "length (nfkc t) \<le> M" if "t \<in> set textList" for t
    unfolding M_def using that by (intro le_Math_max) simp
  have ids: "index_row table M (nfkc t)
             = map (\<lambda>cp. if cp < length table then table ! cp else - 1) (code_points (nfkc t))
               @ replicate (M - length (code_points (nfkc t))) 0" if "t \<in> set textList" for t
    using assms that le [OF that] by (intro index_row_no_leading) (simp_all add: list_all_iff)
  have rows: "fold (\<lambda>j r. r[j := (1::real)]) [0..<min (length (nfkc t)) M] (replicate M 0)
              = replicate (length (code_points (nfkc t))) 1
                @ replicate (M - length (code_points (nfkc t))) 0" if "t \<in> set textList" for t
    using text_mask_row [OF le [OF that]] cps [OF that] by (simp add: min_absorb1 le [OF that])
  show ?thesis
    unfolding lens M_def [symmetric]
    by (simp add: UnicodeProcessor_call_def getTextMask_def UnicodeProcessor_lengthToMask_def
        Let_def M_def [symmetric] ids rows cong: map_cong)
qed

text \<open>
  C2 at a text with a code point outside the Basic Multilingual Plane. The string of
  the single code point U+1F600 (the code units D83D, DE00; it is its own NFKC form)
  has one code point, but the loop of \<open>call\<close> runs over the two code units:
  \<open>codePointAt(0)\<close> is the code point, \<open>codePointAt(1)\<close> is the trailing surrogate, so the
  row has two ids and the mask row two ones.
\<close>

theorem indexer_surrogate_pair:
  "code_points [0xD83D, 0xDE00] = [0x1F600]
   \<and> UnicodeProcessor_call no_normalize [5, 6, 7] [[0xD83D, 0xDE00]]
     = \<lparr>tok_textIds = [[- 1, - 1]], tok_textMask = [[[1, 1]]]\<rparr>"
  by (simp add: is_leading_surrogate_def is_trailing_surrogate_def UnicodeProcessor_call_def
      no_normalize_def Math_max_def index_row_def codePointAt_def getTextMask_def
      UnicodeProcessor_lengthToMask_def Let_def upt_rec)

section \<open>Sentence splitting\<close>

lemma split_from_pieces:
  "split_from m s p q = pieces_of s p (split_cuts m s p q)"
proof (induction m s p q rule: split_from.induct)
  case (1 m s p q)
  show ?case
  proof (cases "q < length s")
    case False
    then show ?thesis by (subst split_from.simps, subst split_cuts.simps) simp
  next
    case True
    show ?thesis
    proof (cases "m s q")
      case None
      with True 1(1) show ?thesis
        by (subst split_from.simps, subst split_cuts.simps) simp
    next
      case (Some n)
      show ?thesis
      proof (cases "min (q + n) (length s) = p")
        case True
        with \<open>q < length s\<close> Some 1(2) show ?thesis
          by (subst split_from.simps, subst split_cuts.simps) simp
      next
        case False
        with \<open>q < length s\<close> Some 1(3) show ?thesis
          by (subst split_from.simps, subst split_cuts.simps) simp
      qed
    qed
  qed
qed

lemma split_cuts_match:
  "(q, e) \<in> set (split_cuts m s p q0) \<Longrightarrow>
   q0 \<le> q \<and> q < length s \<and> (\<exists>n. m s q = Some n \<and> e = min (q + n) (length s))"
proof (induction m s p q0 rule: split_cuts.induct)
  case (1 m s p q0)
  show ?case
  proof (cases "q0 < length s")
    case False
    with 1(4) show ?thesis by (subst (asm) split_cuts.simps) simp
  next
    case True
    show ?thesis
    proof (cases "m s q0")
      case None
      with True 1(4) have "(q, e) \<in> set (split_cuts m s p (Suc q0))"
        by (subst (asm) split_cuts.simps) simp
      from 1(1) [OF True None this] show ?thesis by auto
    next
      case (Some n)
      show ?thesis
      proof (cases "min (q0 + n) (length s) = p")
        case True
        with \<open>q0 < length s\<close> Some 1(4) have "(q, e) \<in> set (split_cuts m s p (Suc q0))"
          by (subst (asm) split_cuts.simps) simp
        from 1(2) [OF \<open>q0 < length s\<close> Some True this] show ?thesis by auto
      next
        case False
        with \<open>q0 < length s\<close> Some 1(4)
        have "(q, e) = (q0, min (q0 + n) (length s))
              \<or> (q, e) \<in> set (split_cuts m s (min (q0 + n) (length s)) (min (q0 + n) (length s)))"
          by (subst (asm) split_cuts.simps) simp
        then show ?thesis
        proof
          assume "(q, e) = (q0, min (q0 + n) (length s))"
          with \<open>q0 < length s\<close> Some show ?thesis by simp
        next
          assume "(q, e) \<in> set (split_cuts m s (min (q0 + n) (length s)) (min (q0 + n) (length s)))"
          from 1(3) [OF \<open>q0 < length s\<close> Some False this] show ?thesis by auto
        qed
      qed
    qed
  qed
qed

lemma ws_not_sentence_end: "is_ws c \<Longrightarrow> c \<noteq> 0x2E \<and> c \<noteq> 0x21 \<and> c \<noteq> 0x3F"
  by (auto simp: is_ws_def)

lemma no_break_after_abbreviation:
  "abbreviation_before t q \<or> initial_before t q \<Longrightarrow> sentence_break_match t q = None"
  by (auto simp: sentence_break_match_def)

lemma no_break_inside_white_space:
  "0 < q \<Longrightarrow> is_ws (t ! (q - 1)) \<Longrightarrow> sentence_break_match t q = None"
  using ws_not_sentence_end [of "t ! (q - 1)"]
  by (simp add: sentence_break_match_def sentence_end_before_def)

text \<open>
  C8. Let the text before index \<open>q\<close> end with one of the listed abbreviations, or with a
  period after a single upper-case letter (an upper-case letter at a word boundary),
  and let \<open>q'\<close> be \<open>q\<close> or an index in the white space that starts at \<open>q\<close>. Then the
  sentence separator does not match at \<open>q'\<close>, and no cut of the sentence split starts
  there. (The sentences are the slices between the cuts, lemma \<open>split_from_pieces\<close>.)
\<close>

theorem abbreviations_do_not_split:
  assumes "abbreviation_before t q \<or> initial_before t q"
      and "q \<le> q'"
      and "list_all (\<lambda>i. is_ws (t ! i)) [q..<q']"
  shows "sentence_break_match t q' = None
         \<and> (q', e) \<notin> set (split_cuts sentence_break_match t p p0)"
proof -
  have none: "sentence_break_match t q' = None"
  proof (cases "q' = q")
    case True
    with assms(1) show ?thesis by (simp add: no_break_after_abbreviation)
  next
    case False
    with assms(2) have "q < q'" by simp
    then have "q' - 1 \<in> set [q..<q']" by simp
    with assms(3) have "is_ws (t ! (q' - 1))" by (auto simp: list_all_iff)
    with \<open>q < q'\<close> show ?thesis by (simp add: no_break_inside_white_space)
  qed
  moreover have "(q', e) \<notin> set (split_cuts sentence_break_match t p p0)"
    using split_cuts_match [of q' e sentence_break_match t p p0] none by auto
  ultimately show ?thesis by simp
qed

lemma abbreviations_units [code]:
  "abbreviations =
     [[0x4D, 0x72, 0x2E], [0x4D, 0x72, 0x73, 0x2E], [0x4D, 0x73, 0x2E], [0x44, 0x72, 0x2E],
      [0x50, 0x72, 0x6F, 0x66, 0x2E], [0x53, 0x72, 0x2E], [0x4A, 0x72, 0x2E],
      [0x50, 0x68, 0x2E, 0x44, 0x2E], [0x65, 0x74, 0x63, 0x2E], [0x65, 0x2E, 0x67, 0x2E],
      [0x69, 0x2E, 0x65, 0x2E], [0x76, 0x73, 0x2E], [0x49, 0x6E, 0x63, 0x2E],
      [0x4C, 0x74, 0x64, 0x2E], [0x43, 0x6F, 0x2E], [0x43, 0x6F, 0x72, 0x70, 0x2E],
      [0x53, 0x74, 0x2E], [0x41, 0x76, 0x65, 0x2E], [0x42, 0x6C, 0x76, 0x64, 0x2E]]"
  by code_simp

text \<open>An example with an abbreviation, an initial and one real sentence end.\<close>

lemma sentences_example: "js_split sentence_break_match (js ''Dr. No met J. Bond. Hi!'') = [js ''Dr. No met J. Bond.'', js ''Hi!'']"
  by code_simp


text \<open>
  In that example: no cut after \<open>Dr.\<close> (index 3) and none after \<open>J.\<close> (index 13).
\<close>

theorem abbreviations_do_not_split_witness:
  "(sentence_break_match (js ''Dr. No met J. Bond. Hi!'') 3 = None
    \<and> (3, 4) \<notin> set (split_cuts sentence_break_match (js ''Dr. No met J. Bond. Hi!'') 0 0))
   \<and> (sentence_break_match (js ''Dr. No met J. Bond. Hi!'') 13 = None
    \<and> (13, 14) \<notin> set (split_cuts sentence_break_match (js ''Dr. No met J. Bond. Hi!'') 0 0))"
proof -
  have a: "abbreviation_before (js ''Dr. No met J. Bond. Hi!'') 3
           \<or> initial_before (js ''Dr. No met J. Bond. Hi!'') 3"
    by code_simp
  have i: "abbreviation_before (js ''Dr. No met J. Bond. Hi!'') 13
           \<or> initial_before (js ''Dr. No met J. Bond. Hi!'') 13"
    by code_simp
  have r: "list_all (\<lambda>i. is_ws (js ''Dr. No met J. Bond. Hi!'' ! i)) [n..<n]" for n
    by simp
  show ?thesis
    using abbreviations_do_not_split [OF a order_refl r, of 4 0 0]
      abbreviations_do_not_split [OF i order_refl r, of 14 0 0]
    by simp
qed

section \<open>Short texts\<close>

lemma js_space: "js '' '' = [0x20]"
  by code_simp

lemma split_from_not_Nil: "split_from m s p q \<noteq> []"
proof (induction m s p q rule: split_from.induct)
  case (1 m s p q)
  show ?case
    using 1 by (subst split_from.simps) (auto split: option.splits)
qed

lemma split_from_no_match:
  "(\<And>i. q \<le> i \<Longrightarrow> i < length s \<Longrightarrow> m s i = None) \<Longrightarrow> split_from m s p q = [drop p s]"
proof (induction m s p q rule: split_from.induct)
  case (1 m s p q)
  show ?case
  proof (cases "q < length s")
    case False
    then show ?thesis by (subst split_from.simps) simp
  next
    case True
    then have none: "m s q = None" using 1(4) by simp
    have "split_from m s p (Suc q) = [drop p s]"
      using 1(4) by (intro 1(1) [OF True none]) simp_all
    with True none show ?thesis by (subst split_from.simps) simp
  qed
qed

lemma length_join_spaces_Cons:
  "length (join_spaces (x # xs))
   = length x + (if xs = [] then 0 else 1 + length (join_spaces xs))"
  by (cases xs) (simp_all add: js_space)

lemma join_spaces_Cons: "join_spaces (x # xs) = x @ concat (map (\<lambda>y. 0x20 # y) xs)"
  by (induction xs arbitrary: x) (simp_all add: js_space)

lemma length_join_split:
  "(\<And>i n. m s i = Some n \<Longrightarrow> 1 \<le> n) \<Longrightarrow> p \<le> q \<Longrightarrow> q \<le> length s \<Longrightarrow>
   length (join_spaces (split_from m s p q)) \<le> length s - p"
proof (induction m s p q rule: split_from.induct)
  case (1 m s p q)
  note pos = 1(4)
  show ?case
  proof (cases "q < length s")
    case False
    then show ?thesis by (subst split_from.simps) simp
  next
    case True
    show ?thesis
    proof (cases "m s q")
      case None
      have "length (join_spaces (split_from m s p (Suc q))) \<le> length s - p"
        using True 1(5) by (intro 1(1) [OF True None pos]) simp_all
      with True None show ?thesis by (subst split_from.simps) simp
    next
      case (Some n)
      show ?thesis
      proof (cases "min (q + n) (length s) = p")
        case eq: True
        have "length (join_spaces (split_from m s p (Suc q))) \<le> length s - p"
          using True 1(5) by (intro 1(2) [OF True Some eq pos]) simp_all
        with True Some eq show ?thesis by (subst split_from.simps) simp
      next
        case neq: False
        define e where "e = min (q + n) (length s)"
        have n: "1 \<le> n" using pos Some by blast
        have e: "q < e" "e \<le> length s" using n True by (simp_all add: e_def)
        have rest: "length (join_spaces (split_from m s e e)) \<le> length s - e"
          unfolding e_def by (intro 1(3) [OF True Some neq pos]) simp_all
        have "split_from m s p q = take (q - p) (drop p s) # split_from m s e e"
          unfolding e_def using True Some neq by (subst split_from.simps) simp
        then have "length (join_spaces (split_from m s p q))
                   = (q - p) + 1 + length (join_spaces (split_from m s e e))"
          using True 1(5) by (simp add: length_join_spaces_Cons split_from_not_Nil)
        with rest e 1(5) show ?thesis by linarith
      qed
    qed
  qed
qed

lemma hd_split_from_nonempty:
  "p < q \<Longrightarrow> p < length s \<Longrightarrow> hd (split_from m s p q) \<noteq> []"
proof (induction m s p q rule: split_from.induct)
  case (1 m s p q)
  show ?case
  proof (cases "q < length s")
    case False
    with 1(5) show ?thesis by (subst split_from.simps) simp
  next
    case True
    show ?thesis
    proof (cases "m s q")
      case None
      have "hd (split_from m s p (Suc q)) \<noteq> []"
        using 1(4,5) by (intro 1(1) [OF True None]) simp_all
      with True None show ?thesis by (subst split_from.simps) simp
    next
      case (Some n)
      show ?thesis
      proof (cases "min (q + n) (length s) = p")
        case eq: True
        have "hd (split_from m s p (Suc q)) \<noteq> []"
          using 1(4,5) by (intro 1(2) [OF True Some eq]) simp_all
        with True Some eq show ?thesis by (subst split_from.simps) simp
      next
        case neq: False
        with True Some 1(4,5) show ?thesis by (subst split_from.simps) simp
      qed
    qed
  qed
qed

lemma hd_js_split_nonempty:
  assumes "m s 0 = None" and "s \<noteq> []"
  shows "hd (js_split m s) \<noteq> []"
proof -
  have "split_from m s 0 0 = split_from m s 0 (Suc 0)"
    using assms by (subst split_from.simps) simp
  with assms(2) hd_split_from_nonempty [of 0 "Suc 0" s m] show ?thesis
    by (simp add: js_split_def)
qed

lemma pack_fits:
  "cur \<noteq> [] \<Longrightarrow> int (length (cur @ concat (map (\<lambda>y. 0x20 # y) xs))) \<le> maxLen \<Longrightarrow>
   pack_sentences maxLen xs cur chunks = (cur @ concat (map (\<lambda>y. 0x20 # y) xs), chunks)"
proof (induction xs arbitrary: cur)
  case Nil
  then show ?case by simp
next
  case (Cons x xs)
  have fits: "int (length cur) + int (length x) + 1 \<le> maxLen"
    using Cons.prems(2) by simp
  have "pack_sentences maxLen (x # xs) cur chunks
        = pack_sentences maxLen xs (cur @ 0x20 # x) chunks"
    using fits Cons.prems(1) by (simp add: js_space)
  also have "\<dots> = ((cur @ 0x20 # x) @ concat (map (\<lambda>y. 0x20 # y) xs), chunks)"
    using Cons.prems(2) by (intro Cons.IH) simp_all
  finally show ?case by simp
qed

lemma pack_first:
  "pack_sentences maxLen (x # xs) [] chunks = pack_sentences maxLen xs x chunks"
  by simp

lemma pack_all_fit:
  assumes "xs \<noteq> []" and "hd xs \<noteq> []" and "int (length (join_spaces xs)) \<le> maxLen"
  shows "pack_sentences maxLen xs [] chunks = (join_spaces xs, chunks)"
proof -
  obtain x ys where xs: "xs = x # ys" using assms(1) by (cases xs) auto
  with assms show ?thesis
    by (simp only: xs pack_first join_spaces_Cons) (simp add: pack_fits)
qed

lemma dropWhile_id: "xs = [] \<or> \<not> P (hd xs) \<Longrightarrow> dropWhile P xs = xs"
  by (cases xs) auto

lemma trim_trim: "trim (trim s) = trim s"
proof -
  define u where "u = dropWhile is_ws s"
  define v where "v = dropWhile is_ws (rev u)"
  have u: "u = [] \<or> \<not> is_ws (hd u)"
    unfolding u_def using hd_dropWhile [of is_ws s] by blast
  have v: "v = [] \<or> \<not> is_ws (hd v)"
    unfolding v_def using hd_dropWhile [of is_ws "rev u"] by blast
  have t: "trim s = rev v" by (simp add: trim_def u_def v_def)
  have hd_rev_v: "rev v = [] \<or> \<not> is_ws (hd (rev v))"
  proof (cases "v = []")
    case True
    then show ?thesis by simp
  next
    case False
    obtain w where w: "rev u = w @ v" "\<forall>x\<in>set w. is_ws x"
      unfolding v_def
      by (metis takeWhile_dropWhile_id set_takeWhileD)
    then have "u = rev v @ rev w" by (metis rev_append rev_rev_ident)
    with False have "hd u = hd (rev v)" by simp
    moreover have "u \<noteq> []" using False w(1) by auto
    ultimately show ?thesis using u by simp
  qed
  have a: "dropWhile is_ws (rev v) = rev v"
    using hd_rev_v by (rule dropWhile_id)
  have b: "dropWhile is_ws v = v"
    using v by (rule dropWhile_id)
  have "trim (rev v) = rev v"
    by (simp add: trim_def a b)
  then show ?thesis by (simp only: t)
qed

lemma sentence_break_positive: "sentence_break_match s i = Some n \<Longrightarrow> 1 \<le> n"
  by (auto simp: sentence_break_match_def Let_def Suc_le_eq split: if_splits)

lemma sentence_break_0: "sentence_break_match s 0 = None"
  by (simp add: sentence_break_match_def sentence_end_before_def)

lemma no_match_split:
  "\<not> contains_match m s \<Longrightarrow> s \<noteq> [] \<Longrightarrow> js_split m s = [s]"
  by (simp add: js_split_def contains_match_def list_ex_iff split_from_no_match)

lemma length_trim: "length (trim s) \<le> length s"
proof -
  have "length (dropWhile is_ws (rev (dropWhile is_ws s))) \<le> length (rev (dropWhile is_ws s))"
    by (rule length_dropWhile_le)
  also have "\<dots> \<le> length s" by (simp add: length_dropWhile_le)
  finally show ?thesis by (simp add: trim_def)
qed

lemma chunk_paragraph_fits:
  assumes t: "trim t = t" and ne: "t \<noteq> []" and len: "int (length t) \<le> maxLen"
  shows "chunk_paragraph maxLen t chunks
         = chunks @ [trim (join_spaces (js_split sentence_break_match t))]"
proof -
  define xs where "xs = js_split sentence_break_match t"
  have xs: "xs = split_from sentence_break_match t 0 0"
    using ne by (simp add: xs_def js_split_def)
  have nonempty: "xs \<noteq> []" by (simp add: xs split_from_not_Nil)
  have hd: "hd xs \<noteq> []"
    unfolding xs_def using sentence_break_0 ne by (rule hd_js_split_nonempty)
  have "length (join_spaces xs) \<le> length t - 0"
    unfolding xs by (rule length_join_split) (auto dest: sentence_break_positive)
  with len have fits: "int (length (join_spaces xs)) \<le> maxLen" by simp
  have packed: "pack_sentences maxLen xs [] chunks = (join_spaces xs, chunks)"
    using nonempty hd fits by (rule pack_all_fit)
  have joined: "join_spaces xs \<noteq> []"
    using nonempty hd by (cases xs) (simp_all add: join_spaces_Cons)
  show ?thesis
    using ne joined by (simp add: chunk_paragraph_def t Let_def xs_def [symmetric] packed)
qed

text \<open>
  C3 (amended). For every string \<open>s\<close> with \<open>len(s) \<le> max_len\<close> whose trimmed form is not
  empty and contains no blank-line separator, \<open>chunkText\<close> returns one chunk: the
  sentences of \<open>s.trim()\<close> joined by single spaces (and trimmed). When \<open>s.trim()\<close>
  contains no sentence separator this is \<open>[s.trim()]\<close>.
\<close>

theorem short_text_single_chunk:
  assumes len: "int (length s) \<le> maxLen"
      and nb: "\<not> contains_match blank_line_match (trim s)"
      and ne: "trim s \<noteq> []"
  shows "chunkText s maxLen = [trim (join_spaces (js_split sentence_break_match (trim s)))]
         \<and> (\<not> contains_match sentence_break_match (trim s) \<longrightarrow> chunkText s maxLen = [trim s])"
proof -
  have para: "js_split blank_line_match (trim s) = [trim s]"
    using nb ne by (rule no_match_split)
  have tlen: "int (length (trim s)) \<le> maxLen"
    using len length_trim [of s] by linarith
  have "chunkText s maxLen = chunk_paragraph maxLen (trim s) []"
    using ne by (simp add: chunkText_def para trim_trim)
  also have "\<dots> = [] @ [trim (join_spaces (js_split sentence_break_match (trim s)))]"
    using trim_trim ne tlen by (rule chunk_paragraph_fits)
  finally have main: "chunkText s maxLen = [trim (join_spaces (js_split sentence_break_match (trim s)))]"
    by simp
  have "chunkText s maxLen = [trim s]" if "\<not> contains_match sentence_break_match (trim s)"
    using main no_match_split [OF that ne] by (simp add: trim_trim)
  with main show ?thesis by blast
qed

lemma ex_trim1: "trim (js '' Hi.  Ok. '') = js ''Hi.  Ok.''" by code_simp
lemma ex_trim2: "trim (js '' Dr. No '') = js ''Dr. No''" by code_simp
lemma ex_nb1: "\<not> contains_match blank_line_match (js ''Hi.  Ok.'')" by code_simp
lemma ex_nb2: "\<not> contains_match blank_line_match (js ''Dr. No'')" by code_simp
lemma ex_ns2: "\<not> contains_match sentence_break_match (js ''Dr. No'')" by code_simp
lemma ex_join1: "trim (join_spaces (js_split sentence_break_match (js ''Hi.  Ok.''))) = js ''Hi. Ok.''"
  by code_simp
lemma ex_len1: "length (js '' Hi.  Ok. '') = 10" and ex_len2: "length (js '' Dr. No '') = 8"
  by (simp_all add: js_def)
lemma ex_ne1: "js ''Hi.  Ok.'' \<noteq> []" and ex_ne2: "js ''Dr. No'' \<noteq> []"
  by (simp_all add: js_def)

text \<open>Two instances: one with a sentence separator of two spaces, one without separator.\<close>

theorem short_text_single_chunk_witness:
  "chunkText (js '' Hi.  Ok. '') 300 = [js ''Hi. Ok.'']
   \<and> chunkText (js '' Dr. No '') 300 = [js ''Dr. No'']"
proof -
  have l1: "int (length (js '' Hi.  Ok. '')) \<le> 300" and l2: "int (length (js '' Dr. No '')) \<le> 300"
    by (simp_all add: ex_len1 ex_len2)
  have b1: "\<not> contains_match blank_line_match (trim (js '' Hi.  Ok. ''))"
    and b2: "\<not> contains_match blank_line_match (trim (js '' Dr. No ''))"
    by (simp_all add: ex_trim1 ex_trim2 ex_nb1 ex_nb2)
  have n1: "trim (js '' Hi.  Ok. '') \<noteq> []" and n2: "trim (js '' Dr. No '') \<noteq> []"
    by (simp_all add: ex_trim1 ex_trim2 ex_ne1 ex_ne2)
  have s2: "\<not> contains_match sentence_break_match (trim (js '' Dr. No ''))"
    by (simp add: ex_trim2 ex_ns2)
  have "chunkText (js '' Hi.  Ok. '') 300 = [js ''Hi. Ok.'']"
    using short_text_single_chunk [OF l1 b1 n1, THEN conjunct1] by (simp add: ex_trim1 ex_join1)
  moreover have "chunkText (js '' Dr. No '') 300 = [js ''Dr. No'']"
    using short_text_single_chunk [OF l2 b2 n2, THEN conjunct2, THEN mp, OF s2] by (simp add: ex_trim2)
  ultimately show ?thesis by simp
qed

text \<open>
  C3 as stated fails in two ways: the two spaces between the sentences of
  \<open>Hi.  Ok.\<close> come back as one, and the empty string yields no chunk at all.
\<close>

theorem short_text_counterexample:
  "int (length (js ''Hi.  Ok.'')) \<le> 300
   \<and> \<not> contains_match blank_line_match (js ''Hi.  Ok.'')
   \<and> chunkText (js ''Hi.  Ok.'') 300 = [js ''Hi. Ok.'']
   \<and> [js ''Hi. Ok.''] \<noteq> [trim (js ''Hi.  Ok.'')]
   \<and> \<not> contains_match blank_line_match []
   \<and> chunkText [] 300 = []
   \<and> [] \<noteq> [trim ([] :: jsstring)]"
  by code_simp

section \<open>The single-style check in a synthesis request\<close>

text \<open>
  Every error of \<open>loadVoiceStyle\<close>, \<open>infer\<close> and the loop of \<open>call\<close> is a RangeError, and
  \<open>synthesize\<close> passes to \<open>call\<close> a style that \<open>loadVoiceStyle\<close> has built: no synthesis
  request ends in the single-style error.
\<close>

lemma sampler_error:
  "sampleNoisyLatent rand pos duration sampleRate baseChunkSize chunkCompress latentDim = Inl e
   \<Longrightarrow> e = RangeError"
  by (auto simp: sampleNoisyLatent_def TextToSpeech_lengthToMask_def Let_def
      split: if_splits sum.splits)

lemma infer_error:
  "infer tts rand pos textList style totalStep speed = (evs, Inl e) \<Longrightarrow> e = RangeError"
  by (auto simp: infer_def initial_latent_def Let_def dest: sampler_error
      split: if_splits sum.splits)

lemma call_loop_error:
  "call_loop tts rand style totalStep speed silenceDuration textList wavCat durCat pos trace
   = (evs, Inl e) \<Longrightarrow> e = RangeError"
proof (induction textList arbitrary: wavCat durCat pos trace)
  case Nil
  then show ?case by simp
next
  case (Cons chunk textList)
  obtain es x where inf: "infer tts rand pos [chunk] style totalStep speed = (es, x)"
    by (cases "infer tts rand pos [chunk] style totalStep speed")
  show ?case
  proof (cases x)
    case (Inl e')
    with inf Cons.prems infer_error [of tts rand pos "[chunk]" style totalStep speed es e']
    show ?thesis by simp
  next
    case (Inr r)
    with inf Cons.prems show ?thesis
      by (auto simp: Let_def split: if_splits dest: Cons.IH)
  qed
qed

lemma loadVoiceStyle_error: "loadVoiceStyle j = Inl e \<Longrightarrow> e = RangeError"
  by (auto simp: loadVoiceStyle_def new_Float32Array_def typed_array_set_def Let_def
      split: if_splits sum.splits)

lemma synthesize_never_single_style_error:
  "snd (synthesize tts assets rand pos options) \<noteq> Inl SingleStyleError"
proof (cases "loadVoiceStyle (assets (opt_voiceStyle options))")
  case (Inl e)
  with loadVoiceStyle_error [OF Inl] show ?thesis by (simp add: synthesize_def)
next
  case (Inr style)
  obtain ds where ds: "dims (ttl style) = 1 # ds"
    using loadVoiceStyle_first_dim [OF Inr] by blast
  define sil where "sil = (case opt_silenceDurationSeconds options of Some v \<Rightarrow> v | None \<Rightarrow> (3 / 10 :: real))"
  obtain evs x where c: "call tts rand pos (opt_text options) style (opt_totalStep options)
                           (opt_speed options) sil = (evs, x)"
    by (cases "call tts rand pos (opt_text options) style (opt_totalStep options) (opt_speed options) sil")
  show ?thesis
  proof (cases x)
    case (Inl e)
    with c ds have "e = RangeError"
      by (auto simp: call_def dest: call_loop_error)
    with c Inl Inr show ?thesis by (simp add: synthesize_def sil_def)
  next
    case r: (Inr r)
    with c Inr show ?thesis
      by (simp add: synthesize_def sil_def Let_def writeWavToBuffer_bytes)
  qed
qed

lemma chunk_hi: "chunkText (js ''Hi'') 300 = [js ''Hi'']"
  by code_simp

lemma demo_est_run: "vectorEstOrt demo_tts n e s l t c u = data n"
  by (simp add: demo_tts_def demo_est_def)

lemma demo_infer_hi:
  "infer demo_tts quarter_rand 0 [js ''Hi''] demo_style 1 1
   = ([DurationPredictorRun \<lparr>data = [- 1, - 1], dims = [1, 2]\<rparr> (dp demo_style)
         \<lparr>data = [1, 1], dims = [1, 1, 2]\<rparr>,
       TextEncoderRun \<lparr>data = [- 1, - 1], dims = [1, 2]\<rparr> (ttl demo_style)
         \<lparr>data = [1, 1], dims = [1, 1, 2]\<rparr>,
       VectorEstimatorRun \<lparr>data = [0, 0, 0], dims = [1, 1, 3]\<rparr> \<lparr>data = [0], dims = [1]\<rparr>
         \<lparr>data = [1], dims = [1]\<rparr>,
       VocoderRun \<lparr>data = [0, 0, 0], dims = [1, 1, 3]\<rparr>],
      Inr \<lparr>out_wav = [1 / 2, - 1 / 4], out_duration = [3 / 2], out_pos = 6\<rparr>)"
  by (simp add: infer_def Let_def demo_dp_any demo_latent_at demo_vocoder infer_prelude_def
      demo_ids demo_mask run_denoise_def loop_once denoise_step_def demo_est_run xt_tensor_def
      next_xt_def len0_def len00_def step_tensor_def upt_rec)

lemma load_two_dims: "loadVoiceStyle two_dims_voice_json = Inr demo_style"
  by (simp add: loadVoiceStyle_def two_dims_voice_json_def demo_style_def new_Float32Array_def
      typed_array_set_def Let_def)

lemma load_two_style: "loadVoiceStyle two_style_voice_json = Inl RangeError"
  by (simp add: loadVoiceStyle_def two_style_voice_json_def new_Float32Array_def
      typed_array_set_def Let_def)

lemma wav_hi:
  "writeWavToBuffer [1 / 2, - (1 / 4)] 4
   = Inr [0x52, 0x49, 0x46, 0x46, 40, 0, 0, 0, 0x57, 0x41, 0x56, 0x45,
          0x66, 0x6D, 0x74, 0x20, 16, 0, 0, 0, 1, 0, 1, 0, 4, 0, 0, 0, 8, 0, 0, 0, 2, 0, 16, 0,
          0x64, 0x61, 0x74, 0x61, 4, 0, 0, 0,
          0xFF, 0x3F, 0x00, 0xE0]"
  by (simp add: writeWavToBuffer_bytes spec_wav_header_def spec_pcm16_def le16_def le32_def)

text \<open>
  C5 at two synthesis requests whose voice style document has \<open>style_ttl.dims[0] = 2\<close>.
  \<open>loadVoiceStyle\<close> reads \<open>dims[1]\<close> and \<open>dims[2]\<close> only and builds the tensor with the
  first dimension \<open>1\<close> (line 421), so the test of \<open>dims[0]\<close> in \<open>call\<close> cannot fail. With
  the document that holds one number, the request is served: the duration predictor,
  the text encoder, the vector estimator and the vocoder run, and a WAV buffer is
  returned. With the document that holds the numbers of both styles,
  \<open>Float32Array.prototype.set\<close> throws a RangeError: no session runs, but the error is
  not the single-speaker error.
\<close>

theorem two_styles_not_rejected:
  "json_dims (style_ttl (two_dims_assets F1)) = (2, 1, 1)
   \<and> synthesize demo_tts two_dims_assets quarter_rand 0
       \<lparr>opt_text = js ''Hi'', opt_voiceStyle = F1, opt_totalStep = 1, opt_speed = 1,
        opt_silenceDurationSeconds = None\<rparr>
     = ([DurationPredictorRun \<lparr>data = [- 1, - 1], dims = [1, 2]\<rparr> \<lparr>data = [0], dims = [1, 1, 1]\<rparr>
           \<lparr>data = [1, 1], dims = [1, 1, 2]\<rparr>,
         TextEncoderRun \<lparr>data = [- 1, - 1], dims = [1, 2]\<rparr> \<lparr>data = [0], dims = [1, 1, 1]\<rparr>
           \<lparr>data = [1, 1], dims = [1, 1, 2]\<rparr>,
         VectorEstimatorRun \<lparr>data = [0, 0, 0], dims = [1, 1, 3]\<rparr> \<lparr>data = [0], dims = [1]\<rparr>
           \<lparr>data = [1], dims = [1]\<rparr>,
         VocoderRun \<lparr>data = [0, 0, 0], dims = [1, 1, 3]\<rparr>],
        Inr \<lparr>res_wavBuffer =
               [0x52, 0x49, 0x46, 0x46, 40, 0, 0, 0, 0x57, 0x41, 0x56, 0x45,
                0x66, 0x6D, 0x74, 0x20, 16, 0, 0, 0, 1, 0, 1, 0, 4, 0, 0, 0, 8, 0, 0, 0, 2, 0, 16, 0,
                0x64, 0x61, 0x74, 0x61, 4, 0, 0, 0,
                0xFF, 0x3F, 0x00, 0xE0],
             res_sampleRate = 4, res_durationSeconds = 3 / 2\<rparr>)
   \<and> json_dims (style_ttl (two_style_assets F1)) = (2, 1, 1)
   \<and> synthesize demo_tts two_style_assets quarter_rand 0
       \<lparr>opt_text = js ''Hi'', opt_voiceStyle = F1, opt_totalStep = 1, opt_speed = 1,
        opt_silenceDurationSeconds = None\<rparr>
     = ([], Inl RangeError)"
  by (simp add: synthesize_def two_dims_assets_def two_style_assets_def load_two_dims
      load_two_style call_def demo_style_dims chunk_hi demo_infer_hi first_or_zero_def
      demo_rate slice0_def wav_hi)
     (simp add: two_dims_voice_json_def two_style_voice_json_def demo_style_def)

end
